theory Spec2Isabelle
  imports Main
begin

section \<open>Python values, errors and the operations the parser uses\<close>

text \<open>
  The parser works on the tree that \<^verbatim>\<open>xmltodict.parse\<close> builds: nested
  ordered dictionaries with string keys, lists, strings and \<^verbatim>\<open>None\<close>. Rows of the
  result tables are dictionaries as well; their values can moreover be integers (the
  coerced party votes). A dictionary is an association list, since Python keeps the
  insertion order and the tables take their column order from it.

  A Python \<^verbatim>\<open>str\<close> is modelled as a \<^typ>\<open>string\<close> whose characters are
  the code points below 256.
\<close>

datatype pyval =
    PNone
  | PStr string
  | PInt int
  | PList "pyval list"
  | PDict "(string \<times> pyval) list"

datatype py_error =
    KeyError
  | TypeError
  | IndexError
  | AttributeError
  | ValueError
  | UnboundLocalError
  | ExpatError

type_synonym 'a res = "py_error + 'a"

text \<open>Sequencing of two computations: the first exception raised propagates.\<close>

definition bnd :: "'a res \<Rightarrow> ('a \<Rightarrow> 'b res) \<Rightarrow> 'b res" where
  "bnd m f = (case m of Inl e \<Rightarrow> Inl e | Inr x \<Rightarrow> f x)"

text \<open>\<^verbatim>\<open>try: x = m  except (errs): x = d\<close>\<close>

definition try_except :: "'a res \<Rightarrow> py_error list \<Rightarrow> 'a \<Rightarrow> 'a res" where
  "try_except m errs d =
     (case m of Inl e \<Rightarrow> (if e \<in> set errs then Inr d else Inl e) | Inr x \<Rightarrow> Inr x)"

text \<open>
  \<^verbatim>\<open>v[k]\<close> with a string key: only a dictionary can be subscripted by a
  string (KeyError when the key is missing); a string, a list, an integer and
  \<^verbatim>\<open>None\<close> raise TypeError.
\<close>

fun subscript :: "pyval \<Rightarrow> string \<Rightarrow> pyval res" where
  "subscript (PDict kvs) k = (case map_of kvs k of None \<Rightarrow> Inl KeyError | Some v \<Rightarrow> Inr v)"
| "subscript _ k = Inl TypeError"

text \<open>\<^verbatim>\<open>v[k1][k2]...\<close>\<close>

fun subscripts :: "pyval \<Rightarrow> string list \<Rightarrow> pyval res" where
  "subscripts v [] = Inr v"
| "subscripts v (k # ks) = bnd (subscript v k) (\<lambda>w. subscripts w ks)"

text \<open>
  \<^verbatim>\<open>for x in v\<close>: a list gives its elements, a dictionary its keys, a string its
  characters (as strings of length one); \<^verbatim>\<open>None\<close> and an integer are not iterable.
\<close>

fun py_iter :: "pyval \<Rightarrow> pyval list res" where
  "py_iter (PList xs) = Inr xs"
| "py_iter (PDict kvs) = Inr (map (\<lambda>kv. PStr (fst kv)) kvs)"
| "py_iter (PStr s) = Inr (map (\<lambda>c. PStr [c]) s)"
| "py_iter _ = Inl TypeError"

text \<open>\<^verbatim>\<open>v.keys()\<close>: only a dictionary has the method.\<close>

fun py_keys :: "pyval \<Rightarrow> string list res" where
  "py_keys (PDict kvs) = Inr (map fst kvs)"
| "py_keys _ = Inl AttributeError"

text \<open>Substring test, the meaning of \<^verbatim>\<open>k in s\<close> for two strings.\<close>

fun is_substr :: "string \<Rightarrow> string \<Rightarrow> bool" where
  "is_substr sub [] = (sub = [])"
| "is_substr sub (c # cs) = (take (length sub) (c # cs) = sub \<or> is_substr sub cs)"

text \<open>
  \<^verbatim>\<open>k in v\<close> for a string \<^verbatim>\<open>k\<close>: key membership in a dictionary, substring test
  in a string, element membership in a list.
\<close>

fun py_in :: "string \<Rightarrow> pyval \<Rightarrow> bool res" where
  "py_in k (PDict kvs) = Inr (k \<in> set (map fst kvs))"
| "py_in k (PStr s) = Inr (is_substr k s)"
| "py_in k (PList xs) = Inr (PStr k \<in> set xs)"
| "py_in k _ = Inl TypeError"

text \<open>
  The truth value of \<^verbatim>\<open>pd.isnull(v)\<close> as the parser uses it in an
  \<^verbatim>\<open>if\<close>: true for \<^verbatim>\<open>None\<close>, false for the other scalars and for a dictionary.
  For a list pandas answers element by element, and the truth value of an array of two
  or more elements is a ValueError; \<^verbatim>\<open>xmltodict\<close> builds a list only for two or
  more sibling elements, none of them a list. On the empty list, on a list of one
  element and on a list of lists, which it never builds, the equations below only
  approximate the truth value that numpy gives the array.
\<close>

fun isnull :: "pyval \<Rightarrow> bool res" where
  "isnull PNone = Inr True"
| "isnull (PList []) = Inr False"
| "isnull (PList [x]) = (case x of PList _ \<Rightarrow> Inl ValueError | _ \<Rightarrow> Inr (x = PNone))"
| "isnull (PList _) = Inl ValueError"
| "isnull _ = Inr False"

subsection \<open>Strings\<close>

definition isspace :: "char \<Rightarrow> bool" where
  "isspace c = (c \<in> set [CHR 0x09, CHR 0x0A, CHR 0x0B, CHR 0x0C, CHR 0x0D,
                          CHR 0x1C, CHR 0x1D, CHR 0x1E, CHR 0x1F, CHR 0x20,
                          CHR 0x85, CHR 0xA0])"

text \<open>\<^verbatim>\<open>s.strip()\<close>\<close>

definition strip :: "string \<Rightarrow> string" where
  "strip s = rev (dropWhile isspace (rev (dropWhile isspace s)))"

definition lower_char :: "char \<Rightarrow> char" where
  "lower_char c =
     (let n = (of_char c :: nat)
      in if (65 \<le> n \<and> n \<le> 90) \<or> (192 \<le> n \<and> n \<le> 222 \<and> n \<noteq> 215)
         then char_of (n + 32) else c)"

text \<open>\<^verbatim>\<open>s.lower()\<close>\<close>

definition lower :: "string \<Rightarrow> string" where
  "lower s = map lower_char s"

section \<open>The station-name decomposer\<close>

text \<open>
  \<^verbatim>\<open>pattern = r'(.*?)\(postcode\: (.*?)\)'\<close> and
  \<^verbatim>\<open>re.findall(pattern, station_name)[0]\<close>: the two groups of the leftmost match.
  The matcher below is the backtracking search of that pattern. A dot matches
  every character but the newline; both groups are lazy.
\<close>

definition newline :: char where
  "newline = CHR 0x0A"

definition postcode_token :: string where
  "postcode_token = ''(postcode: ''"

text \<open>
  The tail of the pattern, \<^verbatim>\<open>(.*?)\)\<close>: the shortest run of characters other than the
  newline that a closing parenthesis follows.
\<close>

fun match_code :: "string \<Rightarrow> string option" where
  "match_code [] = None"
| "match_code (c # cs) =
     (if c = CHR '')'' then Some []
      else if c = newline then None
      else map_option (\<lambda>code. c # code) (match_code cs))"

text \<open>The pattern after the first group: the literal token, then the tail.\<close>

definition match_rest :: "string \<Rightarrow> string option" where
  "match_rest s =
     (if take (length postcode_token) s = postcode_token
      then match_code (drop (length postcode_token) s) else None)"

text \<open>
  The whole pattern anchored at the start of \<open>s\<close>: the lazy first group tries the
  empty string first and gives one more character each time the rest fails.
\<close>

fun match_here :: "string \<Rightarrow> (string \<times> string) option" where
  "match_here [] = map_option (\<lambda>code. ([], code)) (match_rest [])"
| "match_here (c # cs) =
     (case match_rest (c # cs) of
        Some code \<Rightarrow> Some ([], code)
      | None \<Rightarrow>
          (if c = newline then None
           else map_option (\<lambda>(name, code). (c # name, code)) (match_here cs)))"

text \<open>The leftmost match: the search tries every start position in turn.\<close>

fun regex_search :: "string \<Rightarrow> (string \<times> string) option" where
  "regex_search [] = match_here []"
| "regex_search (c # cs) =
     (case match_here (c # cs) of Some r \<Rightarrow> Some r | None \<Rightarrow> regex_search cs)"

text \<open>
  \<^verbatim>\<open>extract_postcode\<close>. \<^verbatim>\<open>re.findall\<close> raises TypeError on anything that
  is not a string; the handler catches IndexError only. The name is stripped on both
  paths, the postcode is returned as matched.
\<close>

fun extract_postcode :: "pyval \<Rightarrow> (pyval \<times> pyval) res" where
  "extract_postcode (PStr s) =
     (case regex_search s of
        Some (name, postcode) \<Rightarrow> Inr (PStr (strip name), PStr postcode)
      | None \<Rightarrow> Inr (PStr (strip s), PNone))"
| "extract_postcode _ = Inl TypeError"

section \<open>Further Python operations\<close>

text \<open>Truth value of a tree value in a condition.\<close>

fun truthy :: "pyval \<Rightarrow> bool" where
  "truthy PNone = False"
| "truthy (PStr s) = (s \<noteq> [])"
| "truthy (PInt n) = (n \<noteq> 0)"
| "truthy (PList xs) = (xs \<noteq> [])"
| "truthy (PDict kvs) = (kvs \<noteq> [])"

fun is_str :: "pyval \<Rightarrow> bool" where
  "is_str (PStr s) = True"
| "is_str _ = False"

fun is_dict :: "pyval \<Rightarrow> bool" where
  "is_dict (PDict kvs) = True"
| "is_dict _ = False"

fun is_list :: "pyval \<Rightarrow> bool" where
  "is_list (PList xs) = True"
| "is_list _ = False"

text \<open>\<^verbatim>\<open>v.lower()\<close>: a method of strings only.\<close>

fun py_lower :: "pyval \<Rightarrow> string res" where
  "py_lower (PStr s) = Inr (lower s)"
| "py_lower _ = Inl AttributeError"

text \<open>
  \<^verbatim>\<open>d[k] = v\<close> on a dictionary: an existing key keeps its place, a new key goes
  to the end.
\<close>

fun dict_set :: "'k \<Rightarrow> 'v \<Rightarrow> ('k \<times> 'v) list \<Rightarrow> ('k \<times> 'v) list" where
  "dict_set k v [] = [(k, v)]"
| "dict_set k v (kv # kvs) = (if fst kv = k then (k, v) # kvs else kv # dict_set k v kvs)"

text \<open>
  A row of a result table. Its keys are Python values, because the aggregate row is
  indexed by the party name read from the document.
\<close>

type_synonym row = "(pyval \<times> pyval) list"

fun hashable :: "pyval \<Rightarrow> bool" where
  "hashable (PList xs) = False"
| "hashable (PDict kvs) = False"
| "hashable _ = True"

text \<open>\<^verbatim>\<open>row[k] = v\<close> where the key comes from the document: a list or a
  dictionary is not hashable.\<close>

definition row_set :: "row \<Rightarrow> pyval \<Rightarrow> pyval \<Rightarrow> row res" where
  "row_set r k v = (if hashable k then Inr (dict_set k v r) else Inl TypeError)"

text \<open>\<^verbatim>\<open>row[k]\<close> for a string key.\<close>

definition row_get :: "row \<Rightarrow> string \<Rightarrow> pyval res" where
  "row_get r k = (case map_of r (PStr k) of None \<Rightarrow> Inl KeyError | Some v \<Rightarrow> Inr v)"

text \<open>A \<^verbatim>\<open>for\<close> loop whose body may raise: the state is threaded through the
  items and the first exception ends the loop.\<close>

fun for_loop :: "('s \<Rightarrow> 'a \<Rightarrow> 's res) \<Rightarrow> 'a list \<Rightarrow> 's \<Rightarrow> 's res" where
  "for_loop body [] s = Inr s"
| "for_loop body (x # xs) s = bnd (body s x) (for_loop body xs)"

subsection \<open>\<^verbatim>\<open>int(s)\<close>\<close>

definition is_digit :: "char \<Rightarrow> bool" where
  "is_digit c = (c \<in> set ''0123456789'')"

definition digit_val :: "char \<Rightarrow> nat" where
  "digit_val c = of_char c - of_char CHR ''0''"

text \<open>The digits after the first one; a single underscore may stand between two
  digits. The length of the digit string is not bounded here: CPython from version 3.11
  on raises ValueError beyond 4300 digits.\<close>

fun int_digits :: "nat \<Rightarrow> string \<Rightarrow> nat option" where
  "int_digits acc [] = Some acc"
| "int_digits acc [c] = (if is_digit c then Some (10 * acc + digit_val c) else None)"
| "int_digits acc (c # d # ds) =
     (if is_digit c then int_digits (10 * acc + digit_val c) (d # ds)
      else if c = CHR ''_'' \<and> is_digit d then int_digits (10 * acc + digit_val d) ds
      else None)"

definition str_to_int :: "string \<Rightarrow> int option" where
  "str_to_int s =
     (let t = strip s;
          neg = (case t of [] \<Rightarrow> False | c # _ \<Rightarrow> c = CHR ''-'');
          body = (case t of [] \<Rightarrow> [] | c # cs \<Rightarrow> if c = CHR ''-'' \<or> c = CHR ''+'' then cs else t)
      in case body of
           [] \<Rightarrow> None
         | d # ds \<Rightarrow>
             if is_digit d
             then map_option (\<lambda>n. if neg then - int n else int n) (int_digits (digit_val d) ds)
             else None)"

fun py_int :: "pyval \<Rightarrow> int res" where
  "py_int (PStr s) = (case str_to_int s of None \<Rightarrow> Inl ValueError | Some n \<Rightarrow> Inr n)"
| "py_int (PInt n) = Inr n"
| "py_int _ = Inl TypeError"

section \<open>The aggregate and per-candidate record builder\<close>

text \<open>
  \<^verbatim>\<open>parse_election_data\<close> is one long function. The model follows it block by
  block; each definition below names the lines it embeds.
\<close>

record identity =
  election_id :: pyval
  election_name :: pyval
  election_domain_id :: pyval
  election_domain_name :: pyval
  election_date :: pyval
  contest_name :: pyval
  managing_authority :: pyval

text \<open>
  Lines 88 to 106: the election domain, read from the election identifier. The result
  is the pair \<^verbatim>\<open>(election_domain_id, election_domain_name)\<close>.
\<close>

definition election_domain_fields :: "pyval \<Rightarrow> (pyval \<times> pyval) res" where
  "election_domain_fields election_identifier =
     bnd (try_except (subscript election_identifier ''kr:ElectionDomain'') [KeyError] PNone)
       (\<lambda>election_domain.
          if truthy election_domain \<and> is_str election_domain
          then Inr (PNone, election_domain)
          else if truthy election_domain \<and> is_dict election_domain
          then bnd (try_except (subscript election_domain ''@Id'') [KeyError] PNone)
                 (\<lambda>domain_id.
                    bnd (try_except (subscript election_domain ''#text'') [KeyError] PNone)
                      (\<lambda>domain_name. Inr (domain_id, domain_name)))
          else Inr (PNone, PNone))"

text \<open>Lines 84 to 119: the identity fields and the contest.\<close>

definition parse_header :: "pyval \<Rightarrow> (identity \<times> pyval) res" where
  "parse_header data =
     bnd (subscripts data [''EML'', ''Count'', ''Election'']) (\<lambda>election.
     bnd (subscript election ''ElectionIdentifier'') (\<lambda>election_identifier.
     bnd (subscript election_identifier ''@Id'') (\<lambda>eid.
     bnd (subscript election_identifier ''ElectionName'') (\<lambda>ename.
     bnd (election_domain_fields election_identifier) (\<lambda>(domain_id, domain_name).
     bnd (subscript election_identifier ''kr:ElectionDate'') (\<lambda>edate.
     bnd (subscripts election [''Contests'', ''Contest'']) (\<lambda>contest.
     bnd (try_except (subscripts contest [''ContestIdentifier'', ''ContestName''])
            [KeyError] PNone) (\<lambda>cname.
     bnd (try_except
            (subscripts data [''EML'', ''ManagingAuthority'', ''AuthorityIdentifier'', ''#text''])
            [KeyError] PNone) (\<lambda>authority.
       Inr (\<lparr>election_id = eid, election_name = ename,
                election_domain_id = domain_id, election_domain_name = domain_name,
                election_date = edate, contest_name = cname,
                managing_authority = authority\<rparr>, contest))))))))))"

text \<open>The seven identity columns that open every aggregate row (lines 124 to 131 and
  140 to 148).\<close>

definition identity_row :: "identity \<Rightarrow> row" where
  "identity_row i =
     [(PStr ''election_id'', election_id i),
      (PStr ''election_name'', election_name i),
      (PStr ''election_domain_id'', election_domain_id i),
      (PStr ''election_domain_name'', election_domain_name i),
      (PStr ''election_date'', election_date i),
      (PStr ''contest_name'', contest_name i),
      (PStr ''managing_authority'', managing_authority i)]"

text \<open>
  Lines 120 to 136: the reporting units. Without the key the document gets one
  row of identity fields with empty station fields, and the loop has nothing to do.
  The result is the initial \<^verbatim>\<open>rows_aggregates\<close> and the list of stations.
\<close>

definition stations_of :: "identity \<Rightarrow> pyval \<Rightarrow> (row list \<times> pyval list) res" where
  "stations_of i contest =
     (case subscript contest ''ReportingUnitVotes'' of
        Inl e \<Rightarrow>
          (if e = KeyError
           then Inr ([identity_row i @ [(PStr ''station_name'', PNone), (PStr ''station_id'', PNone)]],
                     [])
           else Inl e)
      | Inr stations \<Rightarrow>
          Inr ([], case stations of PList xs \<Rightarrow> xs | _ \<Rightarrow> [stations]))"

text \<open>Lines 162 to 166 and 168 to 172: one reason of a breakdown becomes a column.\<close>

definition reason_step :: "string \<Rightarrow> row \<Rightarrow> pyval \<Rightarrow> row res" where
  "reason_step pre item reason =
     bnd (bnd (subscript reason ''@ReasonCode'') py_lower) (\<lambda>key.
     bnd (subscript reason ''#text'') (\<lambda>val.
       Inr (dict_set (PStr (pre @ key)) val item)))"

text \<open>Lines 140 to 172: the station's item, up to the flattened breakdowns.\<close>

definition station_item :: "identity \<Rightarrow> pyval \<Rightarrow> row res" where
  "station_item i station =
     bnd (try_except (subscripts station [''ReportingUnitIdentifier'', ''@Id''])
            [TypeError] PNone) (\<lambda>station_id.
     bnd (try_except (subscripts station [''ReportingUnitIdentifier'', ''#text''])
            [TypeError] PNone) (\<lambda>station_name.
     bnd (extract_postcode station_name) (\<lambda>(station_name, postcode).
     bnd (subscript station ''Cast'') (\<lambda>cast.
     bnd (subscript station ''TotalCounted'') (\<lambda>total_counted.
     bnd (bnd (subscript station ''RejectedVotes'') py_iter) (\<lambda>rejected.
     bnd (for_loop (reason_step ''rejected_'') rejected
            (identity_row i @
             [(PStr ''station_id'', station_id),
              (PStr ''station_name'', station_name),
              (PStr ''postcode'', postcode),
              (PStr ''cast'', cast),
              (PStr ''total_counted'', total_counted)])) (\<lambda>item.
     bnd (py_in ''UncountedVotes'' station) (\<lambda>has_uncounted.
       if has_uncounted
       then bnd (bnd (subscript station ''UncountedVotes'') py_iter)
              (\<lambda>uncounted. for_loop (reason_step ''uncounted_'') uncounted item)
       else Inr item))))))))"

definition keep :: "string list" where
  "keep = [''election_id'', ''election_name'', ''election_domain_name'',
           ''election_domain_id'', ''election_date'', ''contest_name'',
           ''managing_authority'', ''station_id'', ''station_name'', ''postcode'']"

text \<open>\<^verbatim>\<open>{k: item[k] for k in keep}\<close>\<close>

fun keep_fields :: "row \<Rightarrow> string list \<Rightarrow> row res" where
  "keep_fields item [] = Inr []"
| "keep_fields item (k # ks) =
     bnd (row_get item k) (\<lambda>v. bnd (keep_fields item ks) (\<lambda>r. Inr ((PStr k, v) # r)))"

text \<open>
  The state of the loop over the selections (lines 179 to 208): the aggregate row
  being filled, the per-candidate rows so far, and the function's local variables
  \<^verbatim>\<open>party_name\<close> and \<^verbatim>\<open>party_id\<close>. The two are assigned together on lines 181
  to 184 (an exception in between leaves the function), so they are one optional pair:
  \<open>None\<close> while they are unbound.
\<close>

type_synonym party_vars = "(pyval \<times> pyval) option"

definition selection_step ::
  "bool \<Rightarrow> row \<Rightarrow> row \<times> row list \<times> party_vars \<Rightarrow> pyval \<Rightarrow> (row \<times> row list \<times> party_vars) res"
where
  "selection_step per_candidate item st result =
     (case st of (row_aggregate, rows_per_candidate, party) \<Rightarrow>
      bnd (py_keys result) (\<lambda>ks.
        if ''AffiliationIdentifier'' \<in> set ks
        then
          bnd (subscripts result [''AffiliationIdentifier'', ''RegisteredName'']) (\<lambda>party_name.
          bnd (subscripts result [''AffiliationIdentifier'', ''@Id'']) (\<lambda>party_id.
          bnd (isnull party_name) (\<lambda>null.
          bnd (bnd (subscript result ''ValidVotes'') py_int) (\<lambda>votes.
          bnd (row_set row_aggregate (if null then party_id else party_name) (PInt votes))
            (\<lambda>row_aggregate'.
               Inr (row_aggregate', rows_per_candidate,
                    Some (if null then party_id else party_name, party_id)))))))
        else if per_candidate
        then
          bnd (keep_fields item keep) (\<lambda>row_cand.
            case party of
              None \<Rightarrow> Inl UnboundLocalError
            | Some (party_name, party_id) \<Rightarrow>
                bnd (subscripts result [''Candidate'', ''CandidateIdentifier'', ''@Id''])
                  (\<lambda>candidate_id.
                bnd (subscript result ''ValidVotes'') (\<lambda>votes.
                  Inr (row_aggregate,
                       rows_per_candidate @
                         [row_cand @
                          [(PStr ''party_name'', party_name),
                           (PStr ''party_id'', party_id),
                           (PStr ''candidate_identifier'', candidate_id),
                           (PStr ''votes'', votes)]],
                       party))))
        else Inr st))"

text \<open>Lines 173 to 176 and the head of line 179: the selections the loop runs
  over.\<close>

definition station_results :: "pyval \<Rightarrow> pyval list res" where
  "station_results station =
     bnd (try_except (subscript station ''Selection'') [TypeError] (PList [])) py_iter"

text \<open>
  Lines 138 to 209 without the \<^verbatim>\<open>print\<close>: the body of the loop over the
  stations. Its state is \<^verbatim>\<open>rows_aggregates\<close>, \<^verbatim>\<open>rows_per_candidate\<close> and the
  party variables, which live on from one station to the next.
\<close>

definition station_body ::
  "bool \<Rightarrow> identity \<Rightarrow> row list \<times> row list \<times> party_vars \<Rightarrow> pyval \<Rightarrow>
     (row list \<times> row list \<times> party_vars) res"
where
  "station_body per_candidate i st station =
     (case st of (rows_aggregates, rows_per_candidate, party) \<Rightarrow>
      bnd (station_item i station) (\<lambda>item.
      bnd (station_results station) (\<lambda>rs.
      bnd (for_loop (selection_step per_candidate item) rs (item, rows_per_candidate, party))
        (\<lambda>(row_aggregate, rows_per_candidate', party').
           Inr (rows_aggregates @ [row_aggregate], rows_per_candidate', party')))))"

text \<open>Lines 138 and 139: a station that is a string is printed.\<close>

fun station_print :: "pyval \<Rightarrow> string list" where
  "station_print (PStr s) = [s]"
| "station_print _ = []"

text \<open>
  The loop over the stations, with what it prints. The printed lines are kept when
  an exception ends the loop.
\<close>

fun stations_loop ::
  "bool \<Rightarrow> identity \<Rightarrow> pyval list \<Rightarrow> row list \<times> row list \<times> party_vars \<Rightarrow>
     string list \<times> (row list \<times> row list \<times> party_vars) res"
where
  "stations_loop per_candidate i [] st = ([], Inr st)"
| "stations_loop per_candidate i (station # stations) st =
     (case station_body per_candidate i st station of
        Inl e \<Rightarrow> (station_print station, Inl e)
      | Inr st' \<Rightarrow>
          (case stations_loop per_candidate i stations st' of
             (out, r) \<Rightarrow> (station_print station @ out, r)))"

text \<open>
  What \<^verbatim>\<open>parse_election_data\<close> returns: the empty list for a null document
  (line 81), the 4-tuple otherwise (line 210).
\<close>

datatype ped_result =
    Empty_list
  | Result "row list" "row list" pyval pyval

definition parse_election_data :: "pyval \<Rightarrow> bool \<Rightarrow> string list \<times> ped_result res" where
  "parse_election_data data per_candidate =
     (case isnull data of
        Inl e \<Rightarrow> ([], Inl e)
      | Inr True \<Rightarrow> ([], Inr Empty_list)
      | Inr False \<Rightarrow>
          (case parse_header data of
             Inl e \<Rightarrow> ([], Inl e)
           | Inr (i, contest) \<Rightarrow>
               (case stations_of i contest of
                  Inl e \<Rightarrow> ([], Inl e)
                | Inr (rows_aggregates, stations) \<Rightarrow>
                    (case stations_loop per_candidate i stations (rows_aggregates, [], None) of
                       (out, r) \<Rightarrow>
                         (out, bnd r (\<lambda>(rows_aggregates', rows_per_candidate, party).
                                  Inr (Result rows_aggregates' rows_per_candidate
                                         (contest_name i) (managing_authority i))))))))"

section \<open>Reading a document\<close>

text \<open>
  Opening the file and \<^verbatim>\<open>xmltodict.parse\<close> are outside the repository. The
  model takes their outcome for each path: the parsed tree, a UnicodeDecodeError with
  its message, or a parse error of the XML parser.
\<close>

datatype read_outcome =
    Parsed pyval
  | Undecodable string
  | Malformed

record path =
  path_str :: string
  path_name :: string
  path_stem :: string

text \<open>
  \<^verbatim>\<open>read_eml\<close>: the handler catches UnicodeDecodeError only, prints the file name
  and the error, and returns \<^verbatim>\<open>None\<close>.
\<close>

fun read_eml :: "path \<Rightarrow> read_outcome \<Rightarrow> string list \<times> pyval res" where
  "read_eml p (Parsed t) = ([], Inr t)"
| "read_eml p (Undecodable msg) = ([path_name p, msg], Inr PNone)"
| "read_eml p Malformed = ([], Inl ExpatError)"

section \<open>The document set orchestrator\<close>

text \<open>
  A table: \<^verbatim>\<open>pd.DataFrame(rows)\<close> takes its columns from the keys of the rows,
  in the order of their first appearance.
\<close>

record dataframe =
  df_columns :: "pyval list"
  df_rows :: "row list"

definition DataFrame :: "row list \<Rightarrow> dataframe" where
  "DataFrame rows = \<lparr>df_columns = rev (remdups (rev (concat (map (map fst) rows)))),
                      df_rows = rows\<rparr>"

definition first_cols :: "string list" where
  "first_cols =
     [''contest_name'', ''managing_authority'', ''election_id'', ''election_name'',
      ''election_domain_id'', ''election_domain_name'', ''election_date'',
      ''station_name'', ''station_id'', ''postcode'', ''cast'', ''total_counted'',
      ''rejected_blanco'', ''rejected_ongeldig'',
      ''uncounted_andere verklaring'', ''uncounted_geen verklaring'',
      ''uncounted_geldige kiezerspassen'', ''uncounted_geldige stempassen'',
      ''uncounted_geldige volmachtbewijzen'', ''uncounted_kwijtgeraakte stembiljetten'',
      ''uncounted_meegenomen stembiljetten'', ''uncounted_meer getelde stembiljetten'',
      ''uncounted_minder getelde stembiljetten'',
      ''uncounted_te veel uitgereikte stembiljetten'',
      ''uncounted_te weinig uitgereikte stembiljetten'', ''uncounted_toegelaten kiezers'']"

text \<open>Lines 266 to 268: the known columns first, the others in their own order.\<close>

definition reorder :: "dataframe \<Rightarrow> dataframe" where
  "reorder df =
     (let firsts = filter (\<lambda>c. c \<in> set (df_columns df)) (map PStr first_cols)
      in df\<lparr>df_columns := firsts @ filter (\<lambda>c. c \<notin> set firsts) (df_columns df)\<rparr>)"

text \<open>Line 225: paths with \<^verbatim>\<open>kieskring\<close> in their lowercased text are left out.\<close>

definition telling_paths :: "(path \<times> read_outcome) list \<Rightarrow> (path \<times> read_outcome) list" where
  "telling_paths paths =
     filter (\<lambda>(p, f). \<not> is_substr ''kieskring'' (lower (path_str p))) paths"

text \<open>
  Lines 228 to 268: the body of the loop over the paths. Line 230 unpacks the result
  of \<^verbatim>\<open>parse_election_data\<close> into four variables; unpacking the empty list is a
  ValueError.
\<close>

definition process_file ::
  "bool \<Rightarrow> (string \<times> dataframe) list \<Rightarrow> path \<times> read_outcome \<Rightarrow>
     string list \<times> (string \<times> dataframe) list res"
where
  "process_file per_candidate dfs pf =
     (case pf of (p, f) \<Rightarrow>
      (case read_eml p f of
         (out, Inl e) \<Rightarrow> (out, Inl e)
       | (out, Inr data) \<Rightarrow>
           (case parse_election_data data per_candidate of
              (out', Inl e) \<Rightarrow> (out @ out', Inl e)
            | (out', Inr Empty_list) \<Rightarrow> (out @ out', Inl ValueError)
            | (out', Inr (Result rows_aggregates rows_per_candidate cn ma)) \<Rightarrow>
                (out @ out',
                 Inr (dict_set (path_stem p @ ''_aggregate'')
                        (reorder (DataFrame rows_aggregates))
                        (if per_candidate
                         then dict_set (path_stem p @ ''_per_candidate'')
                                (DataFrame rows_per_candidate) dfs
                         else dfs))))))"

fun files_loop ::
  "bool \<Rightarrow> (path \<times> read_outcome) list \<Rightarrow> (string \<times> dataframe) list \<Rightarrow>
     string list \<times> (string \<times> dataframe) list res"
where
  "files_loop per_candidate [] dfs = ([], Inr dfs)"
| "files_loop per_candidate (pf # pfs) dfs =
     (case process_file per_candidate dfs pf of
        (out, Inl e) \<Rightarrow> (out, Inl e)
      | (out, Inr dfs') \<Rightarrow>
          (case files_loop per_candidate pfs dfs' of (out', r) \<Rightarrow> (out @ out', r)))"

text \<open>
  \<^verbatim>\<open>process_files\<close>. The argument is what \<^verbatim>\<open>source.glob('**/Telling*_*.xml')\<close>
  finds, each path with the outcome of reading it.
\<close>

definition process_files ::
  "(path \<times> read_outcome) list \<Rightarrow> bool \<Rightarrow> string list \<times> (string \<times> dataframe) list res"
where
  "process_files paths per_candidate = files_loop per_candidate (telling_paths paths) []"

section \<open>The candidate roster builder\<close>

text \<open>\<^verbatim>\<open>try: x = m  except KeyError: x = alt\<close>, where the handler may raise
  itself.\<close>

definition try_else :: "'a res \<Rightarrow> py_error list \<Rightarrow> 'a res \<Rightarrow> 'a res" where
  "try_else m errs alt =
     (case m of Inl e \<Rightarrow> (if e \<in> set errs then alt else Inl e) | Inr x \<Rightarrow> Inr x)"

text \<open>
  Lines 329 to 332: the search for the namespace number. \<^verbatim>\<open>nr\<close> is a local
  variable of the function: when no key starts with \<^verbatim>\<open>ns\<close> it keeps what an
  earlier candidate left there, and is unbound (\<open>None\<close>) before the first hit.
  \<^verbatim>\<open>key[2]\<close> is an IndexError on the key \<^verbatim>\<open>ns\<close> itself.
\<close>

fun find_nr :: "string list \<Rightarrow> char option \<Rightarrow> char option res" where
  "find_nr [] nr = Inr nr"
| "find_nr (key # keys) nr =
     (if take 2 key = ''ns''
      then (if 2 < length key then Inr (Some (key ! 2)) else Inl IndexError)
      else find_nr keys nr)"

text \<open>Reading \<^verbatim>\<open>nr\<close>: an UnboundLocalError while it is unbound.\<close>

definition with_nr :: "char option \<Rightarrow> (char \<Rightarrow> 'a res) \<Rightarrow> 'a res" where
  "with_nr nr f = (case nr of None \<Rightarrow> Inl UnboundLocalError | Some n \<Rightarrow> f n)"

text \<open>\<^verbatim>\<open>'ns{}:Field'.format(nr)\<close>\<close>

definition ns :: "char \<Rightarrow> string \<Rightarrow> string" where
  "ns n field = ''ns'' @ [n] @ '':'' @ field"

text \<open>What lines 283 to 316 read once for the whole document.\<close>

record roster_header =
  rh_election_identifier :: pyval
  rh_election_id :: pyval
  rh_election_name :: pyval
  rh_election_date :: pyval
  rh_nomination_date :: pyval
  rh_election_domain_id :: pyval
  rh_election_domain_name :: pyval
  rh_contest_name :: pyval

definition roster_header_of :: "pyval \<Rightarrow> (roster_header \<times> pyval) res" where
  "roster_header_of data =
     bnd (subscripts data [''EML'', ''IssueDate'']) (\<lambda>issue_date.
     bnd (subscripts data [''EML'', ''CandidateList'', ''Election'']) (\<lambda>election.
     bnd (subscript election ''ElectionIdentifier'') (\<lambda>ei.
     bnd (subscript ei ''@Id'') (\<lambda>eid.
     bnd (subscript ei ''ElectionName'') (\<lambda>ename0.
     bnd (try_else (subscript ei ''ns6:ElectionDate'') [KeyError]
            (subscript ei ''kr:ElectionDate'')) (\<lambda>edate.
     bnd (try_else (subscript ei ''ns6:NominationDate'') [KeyError]
            (subscript ei ''kr:NominationDate'')) (\<lambda>ndate.
     bnd (try_else (subscripts ei [''ns6:ElectionDomain'', ''@Id'']) [KeyError]
            (subscripts ei [''kr:ElectionDomain'', ''@Id''])) (\<lambda>domain_id.
     bnd (try_else (subscripts ei [''ns6:ElectionDomain'', ''#text'']) [KeyError]
            (subscripts ei [''kr:ElectionDomain'', ''#text''])) (\<lambda>domain_name.
     bnd (try_except (subscripts election [''Contest'', ''ContestIdentifier'', ''ContestName''])
            [KeyError] PNone) (\<lambda>cname.
     bnd (try_except (subscripts election [''ElectionIdentifier'', ''ElectionName''])
            [KeyError] PNone) (\<lambda>ename.
     bnd (subscripts election [''Contest'', ''Affiliation'']) (\<lambda>parties.
       Inr (\<lparr>rh_election_identifier = ei, rh_election_id = eid, rh_election_name = ename,
                rh_election_date = edate, rh_nomination_date = ndate,
                rh_election_domain_id = domain_id, rh_election_domain_name = domain_name,
                rh_contest_name = cname\<rparr>, parties)))))))))))))"

text \<open>Lines 369 to 388: the roster row. The dictionary display names
  \<^verbatim>\<open>election_name\<close> twice, with the same value.\<close>

definition roster_row ::
  "roster_header \<Rightarrow> pyval \<Rightarrow> pyval \<Rightarrow> pyval \<Rightarrow> pyval \<Rightarrow> pyval \<Rightarrow> pyval \<Rightarrow> pyval \<Rightarrow>
     pyval \<Rightarrow> pyval \<Rightarrow> row"
where
  "roster_row h party_name party_id identifier first_name last_name initials pfx gender
     address =
     [(PStr ''election_identifier'', rh_election_identifier h),
      (PStr ''election_id'', rh_election_id h),
      (PStr ''election_name'', rh_election_name h),
      (PStr ''election_date'', rh_election_date h),
      (PStr ''nomination_date'', rh_nomination_date h),
      (PStr ''election_domain_id'', rh_election_domain_id h),
      (PStr ''election_domain_name'', rh_election_domain_name h),
      (PStr ''contest_name'', rh_contest_name h),
      (PStr ''party_name'', party_name),
      (PStr ''party_id'', party_id),
      (PStr ''candidate_identifier'', identifier),
      (PStr ''first_name'', first_name),
      (PStr ''last_name'', last_name),
      (PStr ''initials'', initials),
      (PStr ''prefix'', pfx),
      (PStr ''gender'', gender),
      (PStr ''address'', address)]"

text \<open>
  Lines 323 to 388: the body of the loop over the candidates of a party. The state
  is the row accumulator and \<^verbatim>\<open>nr\<close>. The handlers differ from field to field: the
  last name and the initials catch TypeError only.
\<close>

definition candidate_step ::
  "roster_header \<Rightarrow> pyval \<Rightarrow> pyval \<Rightarrow> row list \<times> char option \<Rightarrow> pyval \<Rightarrow>
     (row list \<times> char option) res"
where
  "candidate_step h party_name party_id st candidate =
     (case st of (rows, nr0) \<Rightarrow>
      bnd (try_except (subscripts candidate [''CandidateIdentifier'', ''@Id''])
             [TypeError] PNone) (\<lambda>identifier.
        if \<not> is_dict candidate then Inr st
        else
          bnd (bnd (subscript candidate ''CandidateFullName'') py_keys) (\<lambda>ks.
          bnd (find_nr ks nr0) (\<lambda>nr.
          bnd (try_except
                 (bnd (subscript candidate ''CandidateFullName'') (\<lambda>fn.
                    with_nr nr (\<lambda>n. subscripts fn [ns n ''PersonName'', ns n ''FirstName''])))
                 [TypeError, KeyError] PNone) (\<lambda>first_name.
          bnd (try_except
                 (bnd (subscript candidate ''CandidateFullName'') (\<lambda>fn.
                    with_nr nr (\<lambda>n. subscripts fn [ns n ''PersonName'', ns n ''LastName''])))
                 [TypeError] PNone) (\<lambda>last_name.
          bnd (try_except
                 (bnd (subscript candidate ''CandidateFullName'') (\<lambda>fn.
                    with_nr nr (\<lambda>n.
                      subscripts fn [ns n ''PersonName'', ns n ''NameLine'', ''#text''])))
                 [TypeError] PNone) (\<lambda>initials.
          bnd (try_except
                 (bnd (subscript candidate ''CandidateFullName'') (\<lambda>fn.
                    with_nr nr (\<lambda>n. subscripts fn [ns n ''PersonName'', ns n ''NamePrefix''])))
                 [TypeError, KeyError] PNone) (\<lambda>pfx.
          bnd (try_except (subscript candidate ''Gender'') [TypeError, KeyError] PNone)
            (\<lambda>gender.
          bnd (try_except
                 (bnd (subscript candidate ''QualifyingAddress'') (\<lambda>qa.
                    with_nr nr (\<lambda>n. subscripts qa [ns n ''Locality'', ns n ''LocalityName''])))
                 [TypeError, KeyError] PNone) (\<lambda>address.
            Inr (rows @ [roster_row h party_name party_id identifier first_name last_name
                           initials pfx gender address],
                 nr)))))))))))"

text \<open>Lines 318 to 388: the body of the loop over the parties.\<close>

definition party_step ::
  "roster_header \<Rightarrow> row list \<times> char option \<Rightarrow> pyval \<Rightarrow> (row list \<times> char option) res"
where
  "party_step h st party =
     bnd (subscripts party [''AffiliationIdentifier'', ''RegisteredName'']) (\<lambda>party_name.
     bnd (subscripts party [''AffiliationIdentifier'', ''@Id'']) (\<lambda>party_id.
     bnd (bnd (subscript party ''Candidate'') py_iter) (\<lambda>party_candidates.
       for_loop (candidate_step h party_name party_id) party_candidates st)))"

text \<open>\<^verbatim>\<open>parse_candidates\<close>: the rows of earlier documents come in, the rows with
  this document's candidates appended go out.\<close>

definition parse_candidates :: "pyval \<Rightarrow> row list \<Rightarrow> row list res" where
  "parse_candidates data rows =
     bnd (roster_header_of data) (\<lambda>(h, parties).
     bnd (py_iter parties) (\<lambda>ps.
     bnd (for_loop (party_step h) ps (rows, None)) (\<lambda>(rows', nr). Inr rows')))"

text \<open>
  \<^verbatim>\<open>create_candidate_list\<close>, over what
  \<^verbatim>\<open>source.glob('**/Kandidatenlijsten_*.xml')\<close> finds. A document that
  \<^verbatim>\<open>read_eml\<close> answers with \<^verbatim>\<open>None\<close> is passed over.
\<close>

fun candidate_files_loop ::
  "(path \<times> read_outcome) list \<Rightarrow> row list \<Rightarrow> string list \<times> row list res"
where
  "candidate_files_loop [] rows = ([], Inr rows)"
| "candidate_files_loop (pf # pfs) rows =
     (case read_eml (fst pf) (snd pf) of
        (out, Inl e) \<Rightarrow> (out, Inl e)
      | (out, Inr data) \<Rightarrow>
          (case bnd (isnull data)
                  (\<lambda>null. if \<not> null then parse_candidates data rows else Inr rows) of
             Inl e \<Rightarrow> (out, Inl e)
           | Inr rows' \<Rightarrow>
               (case candidate_files_loop pfs rows' of (out', r) \<Rightarrow> (out @ out', r))))"

definition create_candidate_list :: "(path \<times> read_outcome) list \<Rightarrow> string list \<times> dataframe res"
where
  "create_candidate_list paths =
     (case candidate_files_loop paths [] of (out, r) \<Rightarrow> (out, bnd r (\<lambda>rows. Inr (DataFrame rows))))"

section \<open>Notions of the specification\<close>

text \<open>
  A label matches the pattern \<^verbatim>\<open><name>(postcode: <code>)\<close> when the token
  occurs in it and a closing parenthesis follows on the same line.
\<close>

definition label_matches :: "string \<Rightarrow> bool" where
  "label_matches s =
     (\<exists>pre code rest. s = pre @ postcode_token @ code @ CHR '')'' # rest \<and> newline \<notin> set code)"

text \<open>
  The trees that \<^verbatim>\<open>xmltodict.parse\<close> builds, called as \<^verbatim>\<open>read_eml\<close> calls it,
  as far as the parser depends on their shape: an empty or blank element is
  \<^verbatim>\<open>None\<close>, so the text of an element is never the empty string; only the value of
  an attribute, under a key that starts with \<^verbatim>\<open>@\<close>, can be one. No integer occurs.
\<close>

fun xml_tree :: "pyval \<Rightarrow> bool"
  and xml_trees :: "pyval list \<Rightarrow> bool"
  and xml_entries :: "(string \<times> pyval) list \<Rightarrow> bool"
where
  "xml_tree PNone = True"
| "xml_tree (PStr s) = (s \<noteq> [])"
| "xml_tree (PInt n) = False"
| "xml_tree (PList xs) = xml_trees xs"
| "xml_tree (PDict kvs) = xml_entries kvs"
| "xml_trees [] = True"
| "xml_trees (x # xs) = (xml_tree x \<and> xml_trees xs)"
| "xml_entries [] = True"
| "xml_entries (kv # kvs) =
     ((if take 1 (fst kv) = ''@'' then is_str (snd kv) else xml_tree (snd kv)) \<and> xml_entries kvs)"

text \<open>The token begins at a position inside the name, when the token follows the
  name.\<close>

definition token_inside :: "string \<Rightarrow> bool" where
  "token_inside name =
     (\<exists>p<length name. take (length postcode_token) (drop p (name @ postcode_token)) = postcode_token)"

text \<open>
  The leftmost match of the pattern in a label. What stands before the match is
  whole lines without a match of their own; the match begins the first line that holds
  the token followed on that line by a closing parenthesis. The name is the text of
  that line before the first occurrence of the token, the code the text between the
  token and the next closing parenthesis.
\<close>

definition leftmost_split :: "string \<Rightarrow> string \<Rightarrow> string \<Rightarrow> string \<Rightarrow> string \<Rightarrow> bool" where
  "leftmost_split s pre name code rest =
     (s = pre @ name @ postcode_token @ code @ CHR '')'' # rest \<and>
      (pre = [] \<or> last pre = newline) \<and> \<not> label_matches pre \<and>
      newline \<notin> set name \<and> \<not> token_inside name \<and>
      newline \<notin> set code \<and> CHR '')'' \<notin> set code)"

subsection \<open>Selections and party variables\<close>

text \<open>A selection item that carries a party identifier: the test of line 180.
  An item that is not a dictionary carries none.\<close>

definition has_affiliation :: "pyval \<Rightarrow> bool" where
  "has_affiliation r =
     (case r of PDict kvs \<Rightarrow> ''AffiliationIdentifier'' \<in> set (map fst kvs) | _ \<Rightarrow> False)"

text \<open>What a party-level item binds \<^verbatim>\<open>party_name\<close> and \<^verbatim>\<open>party_id\<close> to: its
  registered name, or its id when the name is null, and its id.\<close>

definition party_of :: "pyval \<Rightarrow> party_vars" where
  "party_of r =
     (case subscripts r [''AffiliationIdentifier'', ''RegisteredName''] of
        Inl e \<Rightarrow> None
      | Inr name \<Rightarrow>
          (case subscripts r [''AffiliationIdentifier'', ''@Id''] of
             Inl e \<Rightarrow> None
           | Inr pid \<Rightarrow> Some (if isnull name = Inr True then pid else name, pid)))"

text \<open>The party variables after a run of selection items: those of the most recent
  item with a party identifier, and the incoming ones when there is none.\<close>

definition recent_party :: "party_vars \<Rightarrow> pyval list \<Rightarrow> party_vars" where
  "recent_party p pre =
     (case filter has_affiliation pre of [] \<Rightarrow> p | r # rs \<Rightarrow> party_of (last (r # rs)))"

text \<open>The party variables in force at each item without a party identifier, in
  order.\<close>

fun cand_parties :: "party_vars \<Rightarrow> pyval list \<Rightarrow> party_vars list" where
  "cand_parties p [] = []"
| "cand_parties p (r # rs) =
     (if has_affiliation r then cand_parties (party_of r) rs else p # cand_parties p rs)"

text \<open>The party fields of a per-candidate row.\<close>

definition row_party :: "row \<Rightarrow> party_vars" where
  "row_party r =
     (case map_of r (PStr ''party_name'') of
        None \<Rightarrow> None
      | Some n \<Rightarrow> (case map_of r (PStr ''party_id'') of None \<Rightarrow> None | Some pid \<Rightarrow> Some (n, pid)))"

text \<open>The candidate identifier of a selection item.\<close>

definition candidate_id_of :: "pyval \<Rightarrow> pyval res" where
  "candidate_id_of r = subscripts r [''Candidate'', ''CandidateIdentifier'', ''@Id'']"

text \<open>The selection items of a list of reporting units, in document order.\<close>

fun all_results :: "pyval list \<Rightarrow> pyval list res" where
  "all_results [] = Inr []"
| "all_results (s # ss) =
     bnd (station_results s) (\<lambda>rs. bnd (all_results ss) (\<lambda>rest. Inr (rs @ rest)))"

text \<open>The selection items of a whole vote-count document.\<close>

definition document_selections :: "pyval \<Rightarrow> pyval list res" where
  "document_selections data =
     bnd (parse_header data) (\<lambda>(i, contest).
     bnd (stations_of i contest) (\<lambda>(rows, stations). all_results stations))"

text \<open>The per-candidate rows of a result of \<^verbatim>\<open>parse_election_data\<close>.\<close>

definition candidate_rows_of :: "string list \<times> ped_result res \<Rightarrow> row list option" where
  "candidate_rows_of r =
     (case snd r of Inr (Result ra rc cn ma) \<Rightarrow> Some rc | _ \<Rightarrow> None)"

text \<open>The candidate identifiers of the items without a party identifier, in order.\<close>

definition cand_ids :: "pyval list \<Rightarrow> pyval res list" where
  "cand_ids rs = map candidate_id_of (filter (\<lambda>r. \<not> has_affiliation r) rs)"

subsection \<open>Reason columns\<close>

text \<open>The reason code of one entry of a breakdown.\<close>

definition reason_code_of :: "pyval \<Rightarrow> string list" where
  "reason_code_of e = (case subscript e ''@ReasonCode'' of Inr (PStr c) \<Rightarrow> [c] | _ \<Rightarrow> [])"

text \<open>The entries of a breakdown: the items of a list, or the one item that stands
  alone.\<close>

fun reason_entries :: "pyval \<Rightarrow> pyval list" where
  "reason_entries (PList xs) = xs"
| "reason_entries (PDict kvs) = [PDict kvs]"
| "reason_entries _ = []"

text \<open>The reason codes present in a breakdown.\<close>

definition reason_codes :: "pyval \<Rightarrow> string list" where
  "reason_codes v = concat (map reason_code_of (reason_entries v))"

text \<open>The reason codes of the breakdown under a key of a reporting unit; none when
  the key is absent.\<close>

definition station_codes :: "string \<Rightarrow> pyval \<Rightarrow> string list" where
  "station_codes key station =
     (case subscript station key of Inr v \<Rightarrow> reason_codes v | Inl e \<Rightarrow> [])"

text \<open>A column named \<^verbatim>\<open>rejected_*\<close> or \<^verbatim>\<open>uncounted_*\<close>.\<close>

definition is_reason_column :: "string \<Rightarrow> bool" where
  "is_reason_column k = (take 9 k = ''rejected_'' \<or> take 10 k = ''uncounted_'')"

text \<open>The columns of a row that are so named.\<close>

fun reason_columns :: "row \<Rightarrow> string list" where
  "reason_columns [] = []"
| "reason_columns ((PStr k, v) # r) = (if is_reason_column k then k # reason_columns r else reason_columns r)"
| "reason_columns (kv # r) = reason_columns r"

text \<open>Stripping the prefix from such a column name.\<close>

definition recover_code :: "string \<Rightarrow> string" where
  "recover_code k = (if take 9 k = ''rejected_'' then drop 9 k else drop 10 k)"

text \<open>The column names of the party-level items of a selection list.\<close>

definition party_columns :: "pyval list \<Rightarrow> pyval list" where
  "party_columns rs =
     concat (map (\<lambda>r. case party_of r of Some (n, pid) \<Rightarrow> [n] | None \<Rightarrow> [])
               (filter has_affiliation rs))"

text \<open>The names among a list of column names that are so named.\<close>

fun reason_names :: "pyval list \<Rightarrow> string list" where
  "reason_names [] = []"
| "reason_names (PStr k # names) = (if is_reason_column k then k # reason_names names else reason_names names)"
| "reason_names (n # names) = reason_names names"

text \<open>The party columns of a selection list whose own name begins with one of the
  two prefixes.\<close>

definition party_reason_columns :: "pyval list \<Rightarrow> string list" where
  "party_reason_columns rs = reason_names (party_columns rs)"

text \<open>The twelve fixed columns of a station item, in order.\<close>

definition base_keys :: "pyval list" where
  "base_keys = map PStr [''election_id'', ''election_name'', ''election_domain_id'',
     ''election_domain_name'', ''election_date'', ''contest_name'', ''managing_authority'',
     ''station_id'', ''station_name'', ''postcode'', ''cast'', ''total_counted'']"

section \<open>Example documents\<close>

text \<open>An election identifier with the given entries between its name and its date.\<close>

definition example_identifier :: "(string \<times> pyval) list \<Rightarrow> pyval" where
  "example_identifier extra =
     PDict ([(''@Id'', PStr ''GR2018''), (''ElectionName'', PStr ''Gemeenteraad'')] @ extra @
            [(''kr:ElectionDate'', PStr ''2018-03-21'')])"

text \<open>A vote-count document with the given election identifier and the given
  entries of its contest after the contest identifier.\<close>

definition example_count :: "pyval \<Rightarrow> (string \<times> pyval) list \<Rightarrow> pyval" where
  "example_count ei contest_entries =
     PDict [(''EML'', PDict
       [(''ManagingAuthority'', PDict
           [(''AuthorityIdentifier'', PDict [(''@Id'', PStr ''0363''), (''#text'', PStr ''Amsterdam'')])]),
        (''Count'', PDict
           [(''Election'', PDict
               [(''ElectionIdentifier'', ei),
                (''Contests'', PDict
                   [(''Contest'', PDict
                       ((''ContestIdentifier'', PDict [(''@Id'', PStr ''geen'')]) #
                        contest_entries))])])])])]"

text \<open>A reporting unit with the given identifier and selections: 100 votes cast, 98
  counted, two reasons of rejection and one uncounted reason.\<close>

definition example_station :: "pyval \<Rightarrow> pyval \<Rightarrow> pyval" where
  "example_station rui selection =
     PDict [(''ReportingUnitIdentifier'', rui),
            (''Selection'', selection),
            (''Cast'', PStr ''100''),
            (''TotalCounted'', PStr ''98''),
            (''RejectedVotes'', PList
               [PDict [(''@ReasonCode'', PStr ''Ongeldig''), (''#text'', PStr ''2'')],
                PDict [(''@ReasonCode'', PStr ''blanco''), (''#text'', PStr ''0'')]]),
            (''UncountedVotes'', PList
               [PDict [(''@ReasonCode'', PStr ''Geldige Stempassen''), (''#text'', PStr ''99'')],
                PDict [(''@ReasonCode'', PStr ''Toegelaten Kiezers''), (''#text'', PStr ''100'')]])]"

definition example_rui :: pyval where
  "example_rui =
     PDict [(''@Id'', PStr ''SB1''), (''#text'', PStr ''Stembureau 1 (postcode: 1234AB)'')]"

text \<open>A party-level total and a candidate-level item of a selection list.\<close>

definition party_total :: "string \<Rightarrow> pyval \<Rightarrow> string \<Rightarrow> pyval" where
  "party_total pid name votes =
     PDict [(''AffiliationIdentifier'', PDict [(''@Id'', PStr pid), (''RegisteredName'', name)]),
            (''ValidVotes'', PStr votes)]"

definition candidate_total :: "string \<Rightarrow> string \<Rightarrow> pyval" where
  "candidate_total cid votes =
     PDict [(''Candidate'', PDict [(''CandidateIdentifier'', PDict [(''@Id'', PStr cid)])]),
            (''ValidVotes'', PStr votes)]"

text \<open>A vote-count document with the given reporting units.\<close>

definition example_document :: "pyval \<Rightarrow> pyval" where
  "example_document stations =
     example_count
       (example_identifier
          [(''kr:ElectionDomain'', PDict [(''@Id'', PStr ''0363''), (''#text'', PStr ''Amsterdam'')])])
       [(''ReportingUnitVotes'', stations)]"

definition example_path :: "string \<Rightarrow> path" where
  "example_path stem =
     \<lparr>path_str = ''data/'' @ stem @ ''.xml'', path_name = stem @ ''.xml'', path_stem = stem\<rparr>"

text \<open>A candidate of a candidate list, with the given name block and the given
  entries after it.\<close>

definition example_candidate :: "pyval \<Rightarrow> (string \<times> pyval) list \<Rightarrow> pyval" where
  "example_candidate full_name entries =
     PDict ([(''CandidateIdentifier'', PDict [(''@Id'', PStr ''1'')]),
             (''CandidateFullName'', full_name)] @ entries)"

definition example_person :: "(string \<times> pyval) list \<Rightarrow> pyval" where
  "example_person kvs = PDict [(''ns2:PersonName'', PDict kvs)]"

definition example_address :: "(string \<times> pyval) list" where
  "example_address =
     [(''QualifyingAddress'', PDict
         [(''ns2:Locality'', PDict [(''ns2:LocalityName'', PStr ''Amsterdam'')])])]"

text \<open>A candidate-list document with one party and the given candidates.\<close>

definition example_roster :: "pyval \<Rightarrow> pyval" where
  "example_roster candidates =
     PDict [(''EML'', PDict
       [(''IssueDate'', PStr ''2018-02-05''),
        (''CandidateList'', PDict
           [(''Election'', PDict
               [(''ElectionIdentifier'', PDict
                   [(''@Id'', PStr ''GR2018''), (''ElectionName'', PStr ''Gemeenteraad''),
                    (''kr:ElectionDate'', PStr ''2018-03-21''),
                    (''kr:NominationDate'', PStr ''2018-02-05''),
                    (''kr:ElectionDomain'', PDict
                        [(''@Id'', PStr ''0363''), (''#text'', PStr ''Amsterdam'')])]),
                (''Contest'', PDict
                   [(''ContestIdentifier'', PDict [(''@Id'', PStr ''geen'')]),
                    (''Affiliation'', PList
                       [PDict [(''AffiliationIdentifier'', PDict
                                  [(''@Id'', PStr ''1''), (''RegisteredName'', PStr ''PartyA'')]),
                               (''Candidate'', candidates)]])])])])])]"

text \<open>Name fields of a candidate: initials, first name, last name.\<close>

definition example_initials :: "string \<times> pyval" where
  "example_initials =
     (''ns2:NameLine'', PDict [(''@NameType'', PStr ''Initials''), (''#text'', PStr ''J.'')])"

definition example_first_name :: "string \<times> pyval" where
  "example_first_name = (''ns2:FirstName'', PStr ''Jan'')"

definition example_last_name :: "string \<times> pyval" where
  "example_last_name = (''ns2:LastName'', PStr ''Jansen'')"

text \<open>The identity fields of \<open>example_document\<close>.\<close>

definition example_identity :: identity where
  "example_identity =
     \<lparr>election_id = PStr ''GR2018'', election_name = PStr ''Gemeenteraad'',
      election_domain_id = PStr ''0363'', election_domain_name = PStr ''Amsterdam'',
      election_date = PStr ''2018-03-21'', contest_name = PNone,
      managing_authority = PStr ''Amsterdam''\<rparr>"

text \<open>Selection items: two party-level totals, the second without a registered
  name, and two candidate-level items.\<close>

definition pt1 :: pyval where
  "pt1 = party_total ''1'' (PStr ''PartyA'') ''50''"

definition pt2 :: pyval where
  "pt2 = party_total ''2'' PNone ''48''"

definition ct7 :: pyval where
  "ct7 = candidate_total ''7'' ''30''"

definition ct8 :: pyval where
  "ct8 = candidate_total ''8'' ''20''"

text \<open>A reporting unit with party-level totals only, one with candidate-level items
  only, and one with a party-level total followed by a candidate of that party.\<close>

definition station_parties :: pyval where
  "station_parties = example_station example_rui (PList [pt1, pt2])"

definition station_candidates :: pyval where
  "station_candidates = example_station example_rui (PList [ct7, ct8])"

definition station_mixed :: pyval where
  "station_mixed = example_station example_rui (PList [pt1, ct7])"

text \<open>A well-formed document that is not a vote count.\<close>

definition not_a_count :: pyval where
  "not_a_count = PDict [(''EML'', PDict [(''@Id'', PStr ''110a'')])]"

text \<open>A vote-count file that parses: a contest-level count without reporting
  units.\<close>

definition telling_b :: "path \<times> read_outcome" where
  "telling_b = (example_path ''Telling_B'', Parsed (example_count (example_identifier []) []))"

text \<open>A reporting unit one of whose parties is registered under a name that begins
  with \<^verbatim>\<open>rejected_\<close>.\<close>

definition station_fraude :: pyval where
  "station_fraude =
     example_station example_rui (PList [pt1, party_total ''3'' (PStr ''rejected_fraude'') ''1''])"

text \<open>The reporting unit of the specification's scenario A: one reason of rejection,
  which \<^verbatim>\<open>xmltodict\<close> hands over as a single dictionary, and two parties.\<close>

definition scenario_a_station :: pyval where
  "scenario_a_station =
     PDict [(''ReportingUnitIdentifier'',
               PDict [(''@Id'', PStr ''SB1''), (''#text'', PStr ''Stembureau 1 (postcode: 1234AB)'')]),
            (''Selection'', PList
               [party_total ''1'' (PStr ''PartyA'') ''50'', party_total ''2'' (PStr ''PartyB'') ''48'']),
            (''Cast'', PStr ''100''),
            (''TotalCounted'', PStr ''98''),
            (''RejectedVotes'', PDict [(''@ReasonCode'', PStr ''Ongeldig''), (''#text'', PStr ''2'')])]"

section \<open>The station-name decomposer: properties\<close>

lemma match_code_sound:
  "match_code s = Some code \<Longrightarrow>
     (\<exists>rest. s = code @ CHR '')'' # rest) \<and> CHR '')'' \<notin> set code \<and> newline \<notin> set code"
  by (induction s arbitrary: code) (auto split: if_splits)

lemma match_code_complete:
  "CHR '')'' \<notin> set code \<Longrightarrow> newline \<notin> set code \<Longrightarrow> match_code (code @ CHR '')'' # rest) = Some code"
  by (induction code) auto

lemma match_code_exists:
  "newline \<notin> set code \<Longrightarrow> match_code (code @ CHR '')'' # rest) \<noteq> None"
  by (induction code) auto

lemma match_rest_sound:
  "match_rest s = Some code \<Longrightarrow>
     (\<exists>rest. s = postcode_token @ code @ CHR '')'' # rest) \<and> CHR '')'' \<notin> set code \<and> newline \<notin> set code"
proof -
  assume a: "match_rest s = Some code"
  then have t: "take (length postcode_token) s = postcode_token"
    and m: "match_code (drop (length postcode_token) s) = Some code"
    by (auto simp: match_rest_def split: if_splits)
  from match_code_sound[OF m] obtain rest where
    r: "drop (length postcode_token) s = code @ CHR '')'' # rest"
    and c: "CHR '')'' \<notin> set code" "newline \<notin> set code" by blast
  have "s = take (length postcode_token) s @ drop (length postcode_token) s" by simp
  then have "s = postcode_token @ code @ CHR '')'' # rest" using t r by metis
  then show ?thesis using c by blast
qed

lemma match_rest_token:
  "match_rest (postcode_token @ t) = match_code t"
  by (simp add: match_rest_def)

lemma match_here_sound:
  "match_here s = Some (name, code) \<Longrightarrow>
     (\<exists>rest. s = name @ postcode_token @ code @ CHR '')'' # rest)
     \<and> newline \<notin> set name \<and> CHR '')'' \<notin> set code \<and> newline \<notin> set code"
proof (induction s arbitrary: name)
  case Nil
  then show ?case by (auto simp: match_rest_def postcode_token_def)
next
  case (Cons c cs)
  show ?case
  proof (cases "match_rest (c # cs)")
    case (Some code')
    with Cons.prems have "name = []" "code' = code" by auto
    with match_rest_sound[OF Some] show ?thesis by auto
  next
    case None
    with Cons.prems obtain name' where n: "c \<noteq> newline" "match_here cs = Some (name', code)" "name = c # name'"
      by (auto split: if_splits)
    from Cons.IH[OF n(2)] n show ?thesis by auto
  qed
qed

lemma regex_search_sound:
  "regex_search s = Some (name, code) \<Longrightarrow>
     (\<exists>pre rest. s = pre @ name @ postcode_token @ code @ CHR '')'' # rest)
     \<and> newline \<notin> set name \<and> CHR '')'' \<notin> set code \<and> newline \<notin> set code"
proof (induction s)
  case Nil
  from match_here_sound[of "[]" name code] Nil show ?case by (metis append_Nil regex_search.simps(1))
next
  case (Cons c cs)
  show ?case
  proof (cases "match_here (c # cs)")
    case (Some r)
    with Cons.prems have "match_here (c # cs) = Some (name, code)" by simp
    from match_here_sound[OF this] show ?thesis by (metis append_Nil)
  next
    case None
    with Cons.prems have "regex_search cs = Some (name, code)" by simp
    from Cons.IH[OF this] obtain pre rest where "cs = pre @ name @ postcode_token @ code @ CHR '')'' # rest"
      and r: "newline \<notin> set name \<and> CHR '')'' \<notin> set code \<and> newline \<notin> set code" by blast
    then have "c # cs = (c # pre) @ name @ postcode_token @ code @ CHR '')'' # rest" by simp
    then show ?thesis using r by blast
  qed
qed

lemma match_here_token_exists:
  "newline \<notin> set code \<Longrightarrow> match_here (postcode_token @ code @ CHR '')'' # rest) \<noteq> None"
proof -
  assume a: "newline \<notin> set code"
  obtain c cs where e: "postcode_token @ code @ CHR '')'' # rest = c # cs"
    by (cases "postcode_token @ code @ CHR '')'' # rest") auto
  have "match_rest (c # cs) \<noteq> None"
    using match_rest_token[of "code @ CHR '')'' # rest"] match_code_exists[OF a, of rest] e by simp
  then show ?thesis unfolding e by auto
qed

lemma regex_search_here:
  assumes "match_here x \<noteq> None"
  shows "regex_search x \<noteq> None"
proof (cases x)
  case Nil
  then show ?thesis using assms by (simp del: match_here.simps)
next
  case (Cons c cs)
  then obtain r where "match_here (c # cs) = Some r" using assms by auto
  then have "regex_search (c # cs) = Some r" by (simp del: match_here.simps)
  then show ?thesis using Cons by simp
qed

lemma regex_search_append:
  "match_here x \<noteq> None \<Longrightarrow> regex_search (pre @ x) \<noteq> None"
proof (induction pre)
  case Nil
  then show ?case using regex_search_here by simp
next
  case (Cons p ps)
  then have ih: "regex_search (ps @ x) \<noteq> None" by simp
  show ?case
  proof (cases "match_here (p # ps @ x)")
    case None
    then show ?thesis using ih by (simp del: match_here.simps)
  next
    case (Some r)
    then show ?thesis by (simp del: match_here.simps)
  qed
qed

lemma regex_search_complete:
  "newline \<notin> set code \<Longrightarrow> regex_search (pre @ postcode_token @ code @ CHR '')'' # rest) \<noteq> None"
  using regex_search_append[OF match_here_token_exists] by blast

lemma regex_search_None_iff: "regex_search s = None \<longleftrightarrow> \<not> label_matches s"
proof
  assume n: "regex_search s = None"
  show "\<not> label_matches s"
  proof
    assume "label_matches s"
    then obtain pre code rest where "s = pre @ postcode_token @ code @ CHR '')'' # rest" "newline \<notin> set code"
      unfolding label_matches_def by blast
    with regex_search_complete[of code pre rest] n show False by simp
  qed
next
  assume m: "\<not> label_matches s"
  show "regex_search s = None"
  proof (rule ccontr)
    assume "regex_search s \<noteq> None"
    then obtain name code where "regex_search s = Some (name, code)" by auto
    from regex_search_sound[OF this] obtain pre rest where
      "s = (pre @ name) @ postcode_token @ code @ CHR '')'' # rest" "newline \<notin> set code" by auto
    then have "label_matches s" unfolding label_matches_def by blast
    with m show False by simp
  qed
qed

text \<open>When no earlier occurrence of the token starts inside the name, the anchored
  match takes exactly that name.\<close>

lemma match_here_first:
  "newline \<notin> set name \<Longrightarrow> newline \<notin> set code \<Longrightarrow> CHR '')'' \<notin> set code \<Longrightarrow>
   \<forall>p < length name. take (length postcode_token) (drop p (name @ postcode_token @ code @ CHR '')'' # rest)) \<noteq> postcode_token \<Longrightarrow>
   match_here (name @ postcode_token @ code @ CHR '')'' # rest) = Some (name, code)"
proof (induction name)
  case Nil
  obtain c cs where e: "postcode_token @ code @ CHR '')'' # rest = c # cs"
    by (cases "postcode_token @ code @ CHR '')'' # rest") auto
  have "match_rest (c # cs) = Some code"
    using match_rest_token[of "code @ CHR '')'' # rest"] match_code_complete[OF Nil(3) Nil(2), of rest] e by simp
  then show ?case unfolding append_Nil e by simp
next
  case (Cons c cs)
  let ?s = "cs @ postcode_token @ code @ CHR '')'' # rest"
  have 0: "take (length postcode_token) (c # ?s) \<noteq> postcode_token"
    using Cons.prems(4)[rule_format, of 0] by simp
  then have mr: "match_rest (c # ?s) = None" by (simp add: match_rest_def)
  have "\<forall>p<length cs. take (length postcode_token) (drop p ?s) \<noteq> postcode_token"
  proof (intro allI impI)
    fix p assume "p < length cs"
    then have "Suc p < length (c # cs)" by simp
    from Cons.prems(4)[rule_format, OF this] show "take (length postcode_token) (drop p ?s) \<noteq> postcode_token" by simp
  qed
  with Cons have ih: "match_here ?s = Some (cs, code)" by simp
  from Cons.prems(1) have "c \<noteq> newline" by auto
  then show ?case using mr ih by simp
qed

lemma regex_search_match_here:
  "match_here s = Some r \<Longrightarrow> regex_search s = Some r"
  by (cases s) (simp_all del: match_here.simps)

subsection \<open>The leftmost match\<close>

lemma token_no_newline: "newline \<notin> set postcode_token"
  by (simp add: postcode_token_def newline_def)

lemma length_token: "length postcode_token = 11"
  by (simp add: postcode_token_def)

lemma take_token_inside:
  assumes "p < length name"
  shows "take (length postcode_token) (drop p (name @ postcode_token @ after)) =
         take (length postcode_token) (drop p (name @ postcode_token))"
proof -
  have "drop p (name @ postcode_token @ after) = drop p (name @ postcode_token) @ after"
    using assms by simp
  moreover have "length postcode_token \<le> length (drop p (name @ postcode_token))"
    using assms by simp
  ultimately show ?thesis by simp
qed

lemma match_here_not_inside:
  "match_here x = Some (name, code) \<Longrightarrow> \<not> token_inside name"
proof (induction x arbitrary: name)
  case Nil
  then show ?case by (auto simp: match_rest_def postcode_token_def token_inside_def)
next
  case (Cons c cs)
  show ?case
  proof (cases "match_rest (c # cs)")
    case (Some code')
    with Cons.prems have "name = []" by auto
    then show ?thesis by (simp add: token_inside_def)
  next
    case None
    with Cons.prems obtain name' where n: "c \<noteq> newline" "match_here cs = Some (name', code)" "name = c # name'"
      by (auto split: if_splits)
    from Cons.IH[OF n(2)] have ih: "\<not> token_inside name'" .
    from match_here_sound[OF Cons.prems] obtain rest where
      x: "c # cs = name @ postcode_token @ code @ CHR '')'' # rest"
      and nl: "newline \<notin> set name" "newline \<notin> set code" by blast
    have p0: "take (length postcode_token) (name @ postcode_token) \<noteq> postcode_token"
    proof
      assume e: "take (length postcode_token) (name @ postcode_token) = postcode_token"
      have "take (length postcode_token) (c # cs) = take (length postcode_token) (name @ postcode_token)"
        unfolding x using take_token_inside[of 0 name "code @ CHR '')'' # rest"] n(3) by simp
      then have t: "take (length postcode_token) (c # cs) = postcode_token" using e by simp
      have "drop (length postcode_token) (c # cs) =
              drop (length postcode_token) (name @ postcode_token @ code) @ CHR '')'' # rest"
        unfolding x by simp
      moreover have "newline \<notin> set (drop (length postcode_token) (name @ postcode_token @ code))"
        using nl token_no_newline by (auto dest: in_set_dropD)
      ultimately have "match_code (drop (length postcode_token) (c # cs)) \<noteq> None"
        using match_code_exists by metis
      then have "match_rest (c # cs) \<noteq> None" using t by (simp add: match_rest_def)
      with None show False by simp
    qed
    show ?thesis
    proof
      assume "token_inside name"
      then obtain p where p: "p < length name"
        "take (length postcode_token) (drop p (name @ postcode_token)) = postcode_token"
        unfolding token_inside_def by blast
      show False
      proof (cases p)
        case 0
        with p(2) p0 show False by simp
      next
        case (Suc q)
        with p n(3) have "q < length name'"
          "take (length postcode_token) (drop q (name' @ postcode_token)) = postcode_token"
          by simp_all
        then have "token_inside name'" unfolding token_inside_def by blast
        with ih show False by simp
      qed
    qed
  qed
qed

lemma regex_search_start:
  "regex_search s = Some r \<Longrightarrow>
   \<exists>pre x. s = pre @ x \<and> match_here x = Some r \<and> (\<forall>i<length pre. match_here (drop i s) = None)"
proof (induction s)
  case Nil
  then have "match_here [] = Some r" by simp
  then show ?case by (intro exI[of _ "[]"]) simp
next
  case (Cons c cs)
  show ?case
  proof (cases "match_here (c # cs)")
    case (Some r')
    with Cons.prems have "match_here (c # cs) = Some r" by (simp del: match_here.simps)
    then show ?thesis by (intro exI[of _ "[]"] exI[of _ "c # cs"]) simp
  next
    case None
    with Cons.prems have "regex_search cs = Some r" by (simp del: match_here.simps)
    from Cons.IH[OF this] obtain pre x where
      ih: "cs = pre @ x" "match_here x = Some r" "\<forall>i<length pre. match_here (drop i cs) = None"
      by blast
    have "\<forall>i<length (c # pre). match_here (drop i (c # cs)) = None"
    proof (intro allI impI)
      fix i assume i: "i < length (c # pre)"
      show "match_here (drop i (c # cs)) = None"
      proof (cases i)
        case 0
        with None show ?thesis by simp
      next
        case (Suc j)
        with i ih(3) show ?thesis by simp
      qed
    qed
    with ih(1,2) show ?thesis by (intro exI[of _ "c # pre"] exI[of _ x]) simp
  qed
qed

lemma label_matches_Cons: "label_matches q \<Longrightarrow> label_matches (c # q)"
proof -
  assume "label_matches q"
  then obtain pre code rest where
    "q = pre @ postcode_token @ code @ CHR '')'' # rest" "newline \<notin> set code"
    unfolding label_matches_def by blast
  then have "c # q = (c # pre) @ postcode_token @ code @ CHR '')'' # rest \<and> newline \<notin> set code"
    by simp
  then show ?thesis unfolding label_matches_def by blast
qed

lemma prefix_before_newline:
  assumes "q @ x = w @ r" and "q \<noteq> []" and "last q = newline" and "newline \<notin> set w"
  shows "\<exists>r'. q = w @ r'"
proof -
  from assms(1) obtain u where "(q = w @ u \<and> u @ x = r) \<or> (q @ u = w \<and> x = u @ r)"
    by (auto simp: append_eq_append_conv2)
  then show ?thesis
  proof
    assume "q = w @ u \<and> u @ x = r"
    then show ?thesis by blast
  next
    assume a: "q @ u = w \<and> x = u @ r"
    have "last q \<in> set q" using assms(2) by simp
    then have "newline \<in> set w" using a assms(3) by auto
    with assms(4) show ?thesis by simp
  qed
qed

lemma match_rest_in_line:
  assumes "q \<noteq> []" and "last q = newline" and "\<not> label_matches q"
  shows "match_rest (q @ x) = None"
proof (rule ccontr)
  assume "match_rest (q @ x) \<noteq> None"
  then obtain code where "match_rest (q @ x) = Some code" by auto
  from match_rest_sound[OF this] obtain rest where
    e: "q @ x = postcode_token @ code @ CHR '')'' # rest"
    and c: "CHR '')'' \<notin> set code" "newline \<notin> set code" by blast
  have e': "q @ x = (postcode_token @ code @ [CHR '')'']) @ rest" using e by simp
  have "newline \<notin> set (postcode_token @ code @ [CHR '')''])"
    using c(2) token_no_newline by (simp add: newline_def)
  from prefix_before_newline[OF e' assms(1,2) this] obtain r' where
    "q = (postcode_token @ code @ [CHR '')'']) @ r'" ..
  then have "q = [] @ postcode_token @ code @ CHR '')'' # r'" by simp
  with c(2) have "label_matches q" unfolding label_matches_def by blast
  with assms(3) show False by simp
qed

lemma match_here_in_line:
  "q \<noteq> [] \<Longrightarrow> last q = newline \<Longrightarrow> \<not> label_matches q \<Longrightarrow> match_here (q @ x) = None"
proof (induction q)
  case Nil
  then show ?case by simp
next
  case (Cons c q)
  have mr: "match_rest ((c # q) @ x) = None"
    using Cons.prems by (rule match_rest_in_line)
  show ?case
  proof (cases "c = newline")
    case True
    with mr show ?thesis by simp
  next
    case False
    with Cons.prems(2) have q: "q \<noteq> []" by (cases q) auto
    with Cons.prems(2) have lq: "last q = newline" by simp
    have "\<not> label_matches q" using Cons.prems(3) label_matches_Cons by blast
    from Cons.IH[OF q lq this] have "match_here (q @ x) = None" .
    with mr False show ?thesis by simp
  qed
qed

lemma regex_search_skip:
  "pre = [] \<or> last pre = newline \<Longrightarrow> \<not> label_matches pre \<Longrightarrow>
   regex_search (pre @ x) = regex_search x"
proof (induction pre)
  case Nil
  then show ?case by simp
next
  case (Cons c q)
  from Cons.prems(1) have l: "last (c # q) = newline" by simp
  have "match_here ((c # q) @ x) = None"
    using match_here_in_line[OF _ l Cons.prems(2)] by simp
  then have a: "regex_search ((c # q) @ x) = regex_search (q @ x)"
    by (simp del: match_here.simps)
  have "q = [] \<or> last q = newline" using l by (cases q) auto
  moreover have "\<not> label_matches q" using Cons.prems(2) label_matches_Cons by blast
  ultimately have "regex_search (q @ x) = regex_search x" by (rule Cons.IH)
  with a show ?case by simp
qed

lemma start_at_line:
  assumes "match_here x = Some r" and "\<forall>i<length pre. match_here (drop i (pre @ x)) = None"
  shows "pre = [] \<or> last pre = newline"
proof (cases pre rule: rev_cases)
  case Nil
  then show ?thesis by simp
next
  case (snoc q c)
  have "length q < length pre" using snoc by simp
  with assms(2) have "match_here (drop (length q) (pre @ x)) = None" by blast
  then have n: "match_here (c # x) = None" using snoc by simp
  have "c = newline"
  proof (rule ccontr)
    assume "c \<noteq> newline"
    then have "match_here (c # x) \<noteq> None"
      using assms(1) by (cases "match_rest (c # x)") auto
    with n show False by simp
  qed
  with snoc show ?thesis by simp
qed

lemma no_match_before_start:
  assumes "\<forall>i<length pre. match_here (drop i (pre @ x)) = None"
  shows "\<not> label_matches pre"
proof
  assume "label_matches pre"
  then obtain p1 code rest where
    p: "pre = p1 @ postcode_token @ code @ CHR '')'' # rest" and c: "newline \<notin> set code"
    unfolding label_matches_def by blast
  have "length p1 < length pre" unfolding p by (simp add: length_token)
  with assms have "match_here (drop (length p1) (pre @ x)) = None" by blast
  moreover have "drop (length p1) (pre @ x) = postcode_token @ code @ CHR '')'' # (rest @ x)"
    unfolding p by simp
  ultimately have "match_here (postcode_token @ code @ CHR '')'' # (rest @ x)) = None" by simp
  with match_here_token_exists[OF c, of "rest @ x"] show False by simp
qed

lemma regex_search_leftmost:
  assumes "regex_search s = Some (name, code)"
  shows "\<exists>pre rest. leftmost_split s pre name code rest"
proof -
  from regex_search_start[OF assms] obtain pre x where
    s: "s = pre @ x" and m: "match_here x = Some (name, code)"
    and f: "\<forall>i<length pre. match_here (drop i s) = None" by blast
  from match_here_sound[OF m] obtain rest where
    x: "x = name @ postcode_token @ code @ CHR '')'' # rest"
    and n: "newline \<notin> set name" "CHR '')'' \<notin> set code" "newline \<notin> set code" by blast
  have a: "pre = [] \<or> last pre = newline" using start_at_line[OF m f[unfolded s]] .
  have b: "\<not> label_matches pre" using no_match_before_start[OF f[unfolded s]] .
  have c: "\<not> token_inside name" using match_here_not_inside[OF m] .
  have "leftmost_split s pre name code rest"
    unfolding leftmost_split_def using s x n a b c by simp
  then show ?thesis by blast
qed

lemma leftmost_split_search:
  assumes "leftmost_split s pre name code rest"
  shows "regex_search s = Some (name, code)"
proof -
  from assms have s: "s = pre @ name @ postcode_token @ code @ CHR '')'' # rest"
    and a: "pre = [] \<or> last pre = newline" and b: "\<not> label_matches pre"
    and n: "newline \<notin> set name" "newline \<notin> set code" "CHR '')'' \<notin> set code"
    and t: "\<not> token_inside name"
    unfolding leftmost_split_def by blast+
  have "\<forall>p<length name.
          take (length postcode_token) (drop p (name @ postcode_token @ code @ CHR '')'' # rest)) \<noteq>
          postcode_token"
  proof (intro allI impI)
    fix p assume p: "p < length name"
    have "take (length postcode_token) (drop p (name @ postcode_token)) \<noteq> postcode_token"
      using t p unfolding token_inside_def by blast
    then show "take (length postcode_token) (drop p (name @ postcode_token @ code @ CHR '')'' # rest)) \<noteq>
          postcode_token"
      unfolding take_token_inside[OF p] .
  qed
  with n have "match_here (name @ postcode_token @ code @ CHR '')'' # rest) = Some (name, code)"
    by (intro match_here_first)
  then have "regex_search (name @ postcode_token @ code @ CHR '')'' # rest) = Some (name, code)"
    by (rule regex_search_match_here)
  then show ?thesis unfolding s regex_search_skip[OF a b] .
qed

text \<open>
  Claim C8, as amended. On every string label the decomposer returns and does not
  raise. When the label does not match the pattern, the result is the label stripped
  of surrounding whitespace and \<^verbatim>\<open>None\<close>. When it matches, the result is the name
  stripped of surrounding whitespace and the code exactly as matched, not stripped,
  where name and code are those of the leftmost match: every matching label has a
  leftmost split, and the name and the code of any leftmost split of the label are the
  ones returned.
\<close>

theorem extract_postcode_on_strings:
  "(\<exists>n p. extract_postcode (PStr s) = Inr (PStr n, p)) \<and>
   (\<not> label_matches s \<longrightarrow> extract_postcode (PStr s) = Inr (PStr (strip s), PNone)) \<and>
   (label_matches s \<longrightarrow>
      (\<exists>pre name code rest.
         leftmost_split s pre name code rest \<and>
         extract_postcode (PStr s) = Inr (PStr (strip name), PStr code))) \<and>
   (leftmost_split s pre name code rest \<longrightarrow>
      extract_postcode (PStr s) = Inr (PStr (strip name), PStr code))"
proof (intro conjI impI)
  show "\<exists>n p. extract_postcode (PStr s) = Inr (PStr n, p)"
    by (cases "regex_search s") auto
next
  assume "\<not> label_matches s"
  then have "regex_search s = None" by (simp add: regex_search_None_iff)
  then show "extract_postcode (PStr s) = Inr (PStr (strip s), PNone)" by simp
next
  assume "label_matches s"
  then have "regex_search s \<noteq> None" by (simp add: regex_search_None_iff)
  then obtain name code where r: "regex_search s = Some (name, code)" by auto
  from regex_search_leftmost[OF r] obtain pre rest where "leftmost_split s pre name code rest"
    by blast
  moreover have "extract_postcode (PStr s) = Inr (PStr (strip name), PStr code)"
    using r by simp
  ultimately show "\<exists>pre name code rest.
         leftmost_split s pre name code rest \<and>
         extract_postcode (PStr s) = Inr (PStr (strip name), PStr code)" by blast
next
  assume "leftmost_split s pre name code rest"
  then have "regex_search s = Some (name, code)" by (rule leftmost_split_search)
  then show "extract_postcode (PStr s) = Inr (PStr (strip name), PStr code)" by simp
qed

text \<open>The label of the specification's scenario A, and a label without a postcode.\<close>

lemma label_matches_example: "label_matches ''Stembureau 1 (postcode: 1234AB)''"
  unfolding label_matches_def
  by (rule exI[of _ "''Stembureau 1 ''"], rule exI[of _ "''1234AB''"], rule exI[of _ "[]"])
     (simp add: postcode_token_def newline_def)

lemma not_label_matches_example: "\<not> label_matches ''Stembureau 1''"
proof -
  have "regex_search ''Stembureau 1'' = None"
    by (simp add: match_rest_def postcode_token_def newline_def)
  then show ?thesis using regex_search_None_iff[of "''Stembureau 1''"] by blast
qed

text \<open>The empty label, and a first line with the token and no closing
  parenthesis.\<close>

lemma not_label_matches_Nil: "\<not> label_matches []"
  by (simp add: label_matches_def)

lemma two_line_first: "\<not> label_matches (''a(postcode: x'' @ [newline])"
proof -
  have "regex_search (''a(postcode: x'' @ [newline]) = None"
    by (simp add: match_rest_def postcode_token_def newline_def)
  then show ?thesis using regex_search_None_iff[of "''a(postcode: x'' @ [newline]"] by blast
qed

text \<open>Claim C8, witness: the amended statement at the labels above, and at a label
  of two lines whose match is on the second.\<close>

theorem extract_postcode_on_strings_witness:
  "leftmost_split ''Stembureau 1 (postcode: 1234AB)'' [] ''Stembureau 1 '' ''1234AB'' [] \<and>
   extract_postcode (PStr ''Stembureau 1 (postcode: 1234AB)'') =
     Inr (PStr ''Stembureau 1'', PStr ''1234AB'') \<and>
   label_matches ''Stembureau 1 (postcode: 1234AB)'' \<and>
   (\<exists>pre name code rest.
      leftmost_split ''Stembureau 1 (postcode: 1234AB)'' pre name code rest \<and>
      extract_postcode (PStr ''Stembureau 1 (postcode: 1234AB)'') =
        Inr (PStr (strip name), PStr code)) \<and>
   \<not> label_matches ''Stembureau 1'' \<and>
   extract_postcode (PStr ''Stembureau 1'') = Inr (PStr ''Stembureau 1'', PNone) \<and>
   leftmost_split (''a(postcode: x'' @ [newline] @ ''b(postcode: y)'')
     (''a(postcode: x'' @ [newline]) ''b'' ''y'' [] \<and>
   extract_postcode (PStr (''a(postcode: x'' @ [newline] @ ''b(postcode: y)'')) =
     Inr (PStr ''b'', PStr ''y'')"
proof -
  have t1: "\<not> token_inside ''Stembureau 1 ''"
    by (simp add: token_inside_def postcode_token_def Ex_less_Suc eval_nat_numeral)
  have l1: "leftmost_split ''Stembureau 1 (postcode: 1234AB)'' [] ''Stembureau 1 '' ''1234AB'' []"
    unfolding leftmost_split_def using t1 not_label_matches_Nil
    by (simp add: postcode_token_def newline_def)
  have s1: "strip ''Stembureau 1 '' = ''Stembureau 1''" by (simp add: strip_def isspace_def)
  have a: "extract_postcode (PStr ''Stembureau 1 (postcode: 1234AB)'') =
     Inr (PStr ''Stembureau 1'', PStr ''1234AB'')"
    using extract_postcode_on_strings[where s = "''Stembureau 1 (postcode: 1234AB)''"
        and pre = "[]" and name = "''Stembureau 1 ''" and code = "''1234AB''" and rest = "[]",
        THEN conjunct2, THEN conjunct2, THEN conjunct2, THEN mp, OF l1]
    unfolding s1 .
  have e: "\<exists>pre name code rest.
      leftmost_split ''Stembureau 1 (postcode: 1234AB)'' pre name code rest \<and>
      extract_postcode (PStr ''Stembureau 1 (postcode: 1234AB)'') =
        Inr (PStr (strip name), PStr code)"
    using extract_postcode_on_strings[where s = "''Stembureau 1 (postcode: 1234AB)''",
        THEN conjunct2, THEN conjunct2, THEN conjunct1, THEN mp, OF label_matches_example] .
  have s2: "strip ''Stembureau 1'' = ''Stembureau 1''" by (simp add: strip_def isspace_def)
  have b: "extract_postcode (PStr ''Stembureau 1'') = Inr (PStr ''Stembureau 1'', PNone)"
    using extract_postcode_on_strings[where s = "''Stembureau 1''",
        THEN conjunct2, THEN conjunct1, THEN mp, OF not_label_matches_example]
    unfolding s2 .
  have t3: "\<not> token_inside ''b''"
    by (simp add: token_inside_def postcode_token_def)
  have l3: "leftmost_split (''a(postcode: x'' @ [newline] @ ''b(postcode: y)'')
     (''a(postcode: x'' @ [newline]) ''b'' ''y'' []"
    unfolding leftmost_split_def using t3 two_line_first
    by (simp add: postcode_token_def newline_def)
  have s3: "strip ''b'' = ''b''" by (simp add: strip_def isspace_def)
  have c: "extract_postcode (PStr (''a(postcode: x'' @ [newline] @ ''b(postcode: y)'')) =
     Inr (PStr ''b'', PStr ''y'')"
    using extract_postcode_on_strings[where s = "''a(postcode: x'' @ [newline] @ ''b(postcode: y)''"
        and pre = "''a(postcode: x'' @ [newline]" and name = "''b''" and code = "''y''" and rest = "[]",
        THEN conjunct2, THEN conjunct2, THEN conjunct2, THEN mp, OF l3]
    unfolding s3 .
  from l1 a label_matches_example e not_label_matches_example b l3 c
  show ?thesis by (intro conjI) assumption+
qed

text \<open>
  Claim C8, counterexample to the claim as stated: a label without a postcode comes
  back stripped, not unchanged, and a matched code keeps its surrounding whitespace.
\<close>

theorem extract_postcode_claim_counterexample:
  "extract_postcode (PStr '' Stembureau 1'') = Inr (PStr ''Stembureau 1'', PNone) \<and>
   extract_postcode (PStr '' Stembureau 1'') \<noteq> Inr (PStr '' Stembureau 1'', PNone) \<and>
   extract_postcode (PStr ''A (postcode:  1234AB )'') = Inr (PStr ''A'', PStr '' 1234AB '') \<and>
   extract_postcode (PStr ''A (postcode:  1234AB )'') \<noteq> Inr (PStr ''A'', PStr (strip '' 1234AB ''))"
  by (simp add: match_rest_def postcode_token_def newline_def strip_def isspace_def)

text \<open>An absent label: \<^verbatim>\<open>re.findall\<close> raises on \<^verbatim>\<open>None\<close>.\<close>

lemma extract_postcode_None: "extract_postcode PNone = Inl TypeError"
  by simp

section \<open>The loop over the selections\<close>

subsection \<open>Sequencing\<close>

lemma bnd_Inr_iff: "bnd m f = Inr y \<longleftrightarrow> (\<exists>x. m = Inr x \<and> f x = Inr y)"
  by (cases m) (simp_all add: bnd_def)

lemma bnd_Inr [simp]: "bnd (Inr x) f = f x"
  by (simp add: bnd_def)

lemma bnd_Inl [simp]: "bnd (Inl e) f = Inl e"
  by (simp add: bnd_def)

lemma recent_party_Nil [simp]: "recent_party p [] = p"
  by (simp add: recent_party_def)

lemma recent_party_Cons:
  "recent_party p (r # rs) = recent_party (if has_affiliation r then party_of r else p) rs"
  by (cases "filter has_affiliation rs") (simp_all add: recent_party_def)

lemma recent_party_append:
  "recent_party p (xs @ ys) = recent_party (recent_party p xs) ys"
  by (induction xs arbitrary: p) (simp_all add: recent_party_Cons)

lemma cand_parties_append:
  "cand_parties p (xs @ ys) = cand_parties p xs @ cand_parties (recent_party p xs) ys"
  by (induction xs arbitrary: p) (simp_all add: recent_party_Cons)

lemma length_cand_parties:
  "length (cand_parties p rs) = length (filter (\<lambda>r. \<not> has_affiliation r) rs)"
  by (induction rs arbitrary: p) simp_all

lemma cand_parties_nth:
  "\<not> has_affiliation c \<Longrightarrow>
   cand_parties p (pre @ c # post) ! length (filter (\<lambda>r. \<not> has_affiliation r) pre) = recent_party p pre"
  by (simp add: cand_parties_append nth_append length_cand_parties)

subsection \<open>The copied identity fields\<close>

lemma keep_fields_keys:
  "keep_fields item ks = Inr r \<Longrightarrow> map fst r = map PStr ks"
  by (induction ks arbitrary: r) (auto simp: bnd_Inr_iff)

lemma keep_fields_total:
  "\<forall>k\<in>set ks. map_of item (PStr k) \<noteq> None \<Longrightarrow> \<exists>r. keep_fields item ks = Inr r"
  by (induction ks) (auto simp: row_get_def)

lemma map_of_append_notin:
  "k \<notin> set (map fst r) \<Longrightarrow> map_of (r @ t) k = map_of t k"
  by (induction r) auto

lemma in_keep_iff:
  "PStr k \<in> set (map PStr keep) \<longleftrightarrow> k \<in> set keep"
  by auto

subsection \<open>One selection item\<close>

lemma selection_step_party:
  assumes "has_affiliation r"
    and "selection_step pc item (row, rows, p) r = Inr (row', rows', p')"
  shows "rows' = rows \<and> p' = party_of r \<and> p' \<noteq> None \<and>
         (\<exists>n pid v. party_of r = Some (n, pid) \<and> row' = dict_set n v row)"
proof -
  from assms(1) obtain kvs where r: "r = PDict kvs" and k: "''AffiliationIdentifier'' \<in> set (map fst kvs)"
    by (auto simp: has_affiliation_def split: pyval.splits)
  from assms(2) show ?thesis
    unfolding selection_step_def r party_of_def using k
    by (auto simp: bnd_Inr_iff row_set_def split: if_splits sum.splits)
qed

lemma selection_step_dict:
  assumes "selection_step pc item st r = Inr st'"
  shows "is_dict r"
  using assms by (cases r; cases st) (simp_all add: selection_step_def)

lemma row_party_cand:
  assumes "map fst row_cand = map PStr keep"
  defines "t \<equiv> \<lambda>n pid cid v. [(PStr ''party_name'', n), (PStr ''party_id'', pid),
                    (PStr ''candidate_identifier'', cid), (PStr ''votes'', v)]"
  shows "row_party (row_cand @ t n pid cid v) = Some (n, pid)"
    and "row_get (row_cand @ t n pid cid v) ''candidate_identifier'' = Inr cid"
    and "row_get (row_cand @ t n pid cid v) ''party_name'' = Inr n"
    and "row_get (row_cand @ t n pid cid v) ''party_id'' = Inr pid"
proof -
  have a: "PStr ''party_name'' \<notin> set (map fst row_cand)" "PStr ''party_id'' \<notin> set (map fst row_cand)"
    "PStr ''candidate_identifier'' \<notin> set (map fst row_cand)"
    unfolding assms(1) by (simp_all add: keep_def)
  have m1: "map_of (row_cand @ t n pid cid v) (PStr ''party_name'') = Some n"
    unfolding map_of_append_notin[OF a(1)] by (simp add: t_def)
  have m2: "map_of (row_cand @ t n pid cid v) (PStr ''party_id'') = Some pid"
    unfolding map_of_append_notin[OF a(2)] by (simp add: t_def)
  have m3: "map_of (row_cand @ t n pid cid v) (PStr ''candidate_identifier'') = Some cid"
    unfolding map_of_append_notin[OF a(3)] by (simp add: t_def)
  show "row_party (row_cand @ t n pid cid v) = Some (n, pid)"
    unfolding row_party_def m1 m2 by simp
  show "row_get (row_cand @ t n pid cid v) ''candidate_identifier'' = Inr cid"
    unfolding row_get_def m3 by simp
  show "row_get (row_cand @ t n pid cid v) ''party_name'' = Inr n"
    unfolding row_get_def m1 by simp
  show "row_get (row_cand @ t n pid cid v) ''party_id'' = Inr pid"
    unfolding row_get_def m2 by simp
qed

lemma selection_step_candidate:
  assumes "\<not> has_affiliation r"
    and "selection_step True item (row, rows, p) r = Inr (row', rows', p')"
  shows "\<exists>new. rows' = rows @ [new] \<and> p' = p \<and> p \<noteq> None \<and> row' = row \<and> row_party new = p \<and>
               row_get new ''candidate_identifier'' = candidate_id_of r \<and> \<not> isl (candidate_id_of r)"
proof -
  from selection_step_dict[OF assms(2)] obtain kvs where r: "r = PDict kvs" by (cases r) auto
  with assms(1) have k: "''AffiliationIdentifier'' \<notin> set (map fst kvs)"
    by (simp add: has_affiliation_def)
  from assms(2) obtain row_cand n pid cid v where
    kf: "keep_fields item keep = Inr row_cand" and p: "p = Some (n, pid)"
    and cid: "subscripts r [''Candidate'', ''CandidateIdentifier'', ''@Id''] = Inr cid"
    and res: "row' = row" "p' = p"
      "rows' = rows @ [row_cand @ [(PStr ''party_name'', n), (PStr ''party_id'', pid),
                    (PStr ''candidate_identifier'', cid), (PStr ''votes'', v)]]"
    unfolding selection_step_def r using k
    by (auto simp: bnd_Inr_iff r split: option.splits)
  from keep_fields_keys[OF kf] have keys: "map fst row_cand = map PStr keep" .
  show ?thesis
    using res p cid row_party_cand[OF keys] by (simp add: candidate_id_of_def)
qed

lemma selection_step_skip:
  assumes "\<not> has_affiliation r"
    and "selection_step False item (row, rows, p) r = Inr (row', rows', p')"
  shows "rows' = rows \<and> p' = p \<and> row' = row"
proof -
  from selection_step_dict[OF assms(2)] obtain kvs where r: "r = PDict kvs" by (cases r) auto
  with assms(1) have k: "''AffiliationIdentifier'' \<notin> set (map fst kvs)"
    by (simp add: has_affiliation_def)
  from assms(2) show ?thesis unfolding selection_step_def r using k by simp
qed

lemma selection_step_unbound:
  assumes "is_dict r" "\<not> has_affiliation r" "keep_fields item keep = Inr row_cand"
  shows "selection_step True item (row, rows, None) r = Inl UnboundLocalError"
proof -
  from assms(1) obtain kvs where r: "r = PDict kvs" by (cases r) auto
  with assms(2) have k: "''AffiliationIdentifier'' \<notin> set (map fst kvs)"
    by (simp add: has_affiliation_def)
  show ?thesis unfolding selection_step_def r using k assms(3) by simp
qed


subsection \<open>The loops over the selections and over the stations\<close>

lemma cand_ids_Cons:
  "cand_ids (r # rs) = (if has_affiliation r then cand_ids rs else candidate_id_of r # cand_ids rs)"
  by (simp add: cand_ids_def)

lemma cand_ids_append: "cand_ids (xs @ ys) = cand_ids xs @ cand_ids ys"
  by (simp add: cand_ids_def)

lemma selection_loop_rows:
  "for_loop (selection_step pc item) rs (row, rows, p) = Inr (row', rows', p') \<Longrightarrow>
   p' = recent_party p rs \<and>
   (\<exists>new. rows' = rows @ new \<and>
      (if pc
       then map row_party new = cand_parties p rs \<and> None \<notin> set (cand_parties p rs) \<and>
            map (\<lambda>r. row_get r ''candidate_identifier'') new = cand_ids rs \<and>
            (\<forall>e\<in>set (cand_ids rs). \<not> isl e)
       else new = []))"
proof (induction rs arbitrary: row rows p)
  case Nil
  then show ?case by (simp add: cand_ids_def)
next
  case (Cons r rs)
  from Cons.prems obtain st1 where
    s1: "selection_step pc item (row, rows, p) r = Inr st1"
    and l1: "for_loop (selection_step pc item) rs st1 = Inr (row', rows', p')"
    by (auto simp: bnd_Inr_iff)
  obtain row1 rows1 p1 where st1: "st1 = (row1, rows1, p1)" by (cases st1) auto
  from Cons.IH[OF l1[unfolded st1]] obtain new where
    ih: "p' = recent_party p1 rs" "rows' = rows1 @ new"
        "if pc
         then map row_party new = cand_parties p1 rs \<and> None \<notin> set (cand_parties p1 rs) \<and>
              map (\<lambda>r. row_get r ''candidate_identifier'') new = cand_ids rs \<and>
              (\<forall>e\<in>set (cand_ids rs). \<not> isl e)
         else new = []"
    by blast
  show ?case
  proof (cases "has_affiliation r")
    case True
    from selection_step_party[OF True s1[unfolded st1]]
    have "rows1 = rows" "p1 = party_of r" by simp_all
    with ih True show ?thesis
      by (cases pc) (simp_all add: recent_party_Cons cand_ids_Cons)
  next
    case False
    show ?thesis
    proof (cases pc)
      case True
      have s1': "selection_step True item (row, rows, p) r = Inr (row1, rows1, p1)"
        using s1 st1 True by simp
      from selection_step_candidate[OF False s1'] obtain n where
        n: "rows1 = rows @ [n]" "p1 = p" "p \<noteq> None" "row_party n = p"
           "row_get n ''candidate_identifier'' = candidate_id_of r" "\<not> isl (candidate_id_of r)" by blast
      with ih False True show ?thesis
        by (auto simp: recent_party_Cons cand_ids_Cons)
    next
      case pcF: False
      have s1': "selection_step False item (row, rows, p) r = Inr (row1, rows1, p1)"
        using s1 st1 pcF by simp
      from selection_step_skip[OF False s1']
      have "rows1 = rows" "p1 = p" by simp_all
      with ih False pcF show ?thesis
        by (simp add: recent_party_Cons)
    qed
  qed
qed

lemma station_body_parts:
  assumes "station_body pc i (ra, rc, p) s = Inr (ra', rc', p')"
  shows "\<exists>item rs row. station_item i s = Inr item \<and> station_results s = Inr rs \<and>
           for_loop (selection_step pc item) rs (item, rc, p) = Inr (row, rc', p') \<and>
           ra' = ra @ [row]"
  using assms unfolding station_body_def
  by (auto simp: bnd_Inr_iff)

lemma stations_loop_Cons_ok:
  assumes "stations_loop pc i (s # ss) st = (out, Inr st')"
  shows "\<exists>st1 out1. station_body pc i st s = Inr st1 \<and> stations_loop pc i ss st1 = (out1, Inr st')"
  using assms by (auto split: sum.splits prod.splits)

lemma stations_loop_rows:
  "stations_loop pc i ss (ra, rc, p) = (out, Inr (ra', rc', p')) \<Longrightarrow>
   \<exists>sel new. all_results ss = Inr sel \<and> p' = recent_party p sel \<and> rc' = rc @ new \<and>
      (if pc
       then map row_party new = cand_parties p sel \<and> None \<notin> set (cand_parties p sel) \<and>
            map (\<lambda>r. row_get r ''candidate_identifier'') new = cand_ids sel \<and>
            (\<forall>e\<in>set (cand_ids sel). \<not> isl e)
       else new = [])"
proof (induction ss arbitrary: ra rc p out)
  case Nil
  then show ?case by (simp add: cand_ids_def)
next
  case (Cons s ss)
  from stations_loop_Cons_ok[OF Cons.prems] obtain st1 out1 where
    b: "station_body pc i (ra, rc, p) s = Inr st1"
    and l: "stations_loop pc i ss st1 = (out1, Inr (ra', rc', p'))" by blast
  obtain ra1 rc1 p1 where st1: "st1 = (ra1, rc1, p1)" by (cases st1) auto
  from station_body_parts[OF b[unfolded st1]] obtain item rs row where
    sr: "station_results s = Inr rs"
    and fl: "for_loop (selection_step pc item) rs (item, rc, p) = Inr (row, rc1, p1)" by blast
  from selection_loop_rows[OF fl] obtain new1 where
    a1: "p1 = recent_party p rs" "rc1 = rc @ new1"
      "if pc
       then map row_party new1 = cand_parties p rs \<and> None \<notin> set (cand_parties p rs) \<and>
            map (\<lambda>r. row_get r ''candidate_identifier'') new1 = cand_ids rs \<and>
            (\<forall>e\<in>set (cand_ids rs). \<not> isl e)
       else new1 = []" by blast
  from Cons.IH[OF l[unfolded st1]] obtain sel new2 where
    a2: "all_results ss = Inr sel" "p' = recent_party p1 sel" "rc' = rc1 @ new2"
      "if pc
       then map row_party new2 = cand_parties p1 sel \<and> None \<notin> set (cand_parties p1 sel) \<and>
            map (\<lambda>r. row_get r ''candidate_identifier'') new2 = cand_ids sel \<and>
            (\<forall>e\<in>set (cand_ids sel). \<not> isl e)
       else new2 = []" by blast
  have "all_results (s # ss) = Inr (rs @ sel)" using sr a2(1) by simp
  moreover have "p' = recent_party p (rs @ sel)" using a1(1) a2(2) by (simp add: recent_party_append)
  moreover have "rc' = rc @ (new1 @ new2)" using a1(2) a2(3) by simp
  moreover have "if pc
       then map row_party (new1 @ new2) = cand_parties p (rs @ sel) \<and>
            None \<notin> set (cand_parties p (rs @ sel)) \<and>
            map (\<lambda>r. row_get r ''candidate_identifier'') (new1 @ new2) = cand_ids (rs @ sel) \<and>
            (\<forall>e\<in>set (cand_ids (rs @ sel)). \<not> isl e)
       else new1 @ new2 = []"
    using a1(1,3) a2(4) by (cases pc) (auto simp: cand_parties_append cand_ids_append)
  ultimately show ?case by blast
qed

lemma parse_election_data_rows:
  assumes "candidate_rows_of (parse_election_data data pc) = Some rc"
  shows "\<exists>sel. document_selections data = Inr sel \<and>
           (if pc
            then map row_party rc = cand_parties None sel \<and> None \<notin> set (cand_parties None sel) \<and>
                 map (\<lambda>r. row_get r ''candidate_identifier'') rc = cand_ids sel \<and>
                 (\<forall>e\<in>set (cand_ids sel). \<not> isl e)
            else rc = [])"
proof -
  from assms obtain i contest where h: "parse_header data = Inr (i, contest)"
    unfolding candidate_rows_of_def parse_election_data_def
    by (auto split: sum.splits bool.splits prod.splits ped_result.splits)
  from assms h obtain ra0 stations where s: "stations_of i contest = Inr (ra0, stations)"
    unfolding candidate_rows_of_def parse_election_data_def
    by (auto split: sum.splits bool.splits prod.splits ped_result.splits)
  from assms h s obtain out ra' p' where
    l: "stations_loop pc i stations (ra0, [], None) = (out, Inr (ra', rc, p'))"
    unfolding candidate_rows_of_def parse_election_data_def
    by (auto simp: bnd_Inr_iff split: sum.splits bool.splits prod.splits ped_result.splits)
  from stations_loop_rows[OF l] obtain sel new where
    "all_results stations = Inr sel" "rc = [] @ new"
    "if pc
       then map row_party new = cand_parties None sel \<and> None \<notin> set (cand_parties None sel) \<and>
            map (\<lambda>r. row_get r ''candidate_identifier'') new = cand_ids sel \<and>
            (\<forall>e\<in>set (cand_ids sel). \<not> isl e)
       else new = []" by blast
  moreover have "document_selections data = bnd (all_results stations) Inr"
    unfolding document_selections_def using h s by (simp add: bnd_def split: sum.splits)
  ultimately show ?thesis by auto
qed

subsection \<open>Party variables of the per-candidate rows\<close>

lemma cand_ids_nth:
  "\<not> has_affiliation c \<Longrightarrow>
   cand_ids (pre @ c # post) ! length (filter (\<lambda>r. \<not> has_affiliation r) pre) = candidate_id_of c"
  by (simp add: cand_ids_def nth_append)

lemma row_party_SomeD:
  "row_party r = Some (n, pid) \<Longrightarrow> row_get r ''party_name'' = Inr n \<and> row_get r ''party_id'' = Inr pid"
  by (auto simp: row_party_def row_get_def split: option.splits)

lemma recent_party_None_SomeD:
  "recent_party None pre = Some np \<Longrightarrow>
   filter has_affiliation pre \<noteq> [] \<and> party_of (last (filter has_affiliation pre)) = Some np"
  by (cases "filter has_affiliation pre") (simp_all add: recent_party_def)

lemma candidate_row_bound:
  assumes ok: "candidate_rows_of (parse_election_data data True) = Some rc"
    and sel: "document_selections data = Inr (pre @ c # post)"
    and c: "\<not> has_affiliation c"
  shows "filter has_affiliation pre \<noteq> [] \<and>
         (\<exists>n pid cid.
            party_of (last (filter has_affiliation pre)) = Some (n, pid) \<and>
            candidate_id_of c = Inr cid \<and>
            length (filter (\<lambda>r. \<not> has_affiliation r) pre) < length rc \<and>
            row_get (rc ! length (filter (\<lambda>r. \<not> has_affiliation r) pre)) ''party_name'' = Inr n \<and>
            row_get (rc ! length (filter (\<lambda>r. \<not> has_affiliation r) pre)) ''party_id'' = Inr pid \<and>
            row_get (rc ! length (filter (\<lambda>r. \<not> has_affiliation r) pre)) ''candidate_identifier'' = Inr cid)"
proof -
  let ?k = "length (filter (\<lambda>r. \<not> has_affiliation r) pre)"
  let ?sel = "pre @ c # post"
  from parse_election_data_rows[OF ok] sel have
    rp: "map row_party rc = cand_parties None ?sel"
    and nn: "None \<notin> set (cand_parties None ?sel)"
    and ci: "map (\<lambda>r. row_get r ''candidate_identifier'') rc = cand_ids ?sel"
    and ok_ids: "\<forall>e\<in>set (cand_ids ?sel). \<not> isl e"
    by auto
  have len: "length rc = length (filter (\<lambda>r. \<not> has_affiliation r) ?sel)"
    using rp length_cand_parties[of None ?sel] by (metis length_map)
  then have k: "?k < length rc" using c by simp
  have "row_party (rc ! ?k) = map row_party rc ! ?k"
    using nth_map[OF k, of row_party] by simp
  then have rpk: "row_party (rc ! ?k) = recent_party None pre"
    unfolding rp using cand_parties_nth[OF c, of None pre post] by simp
  have k': "?k < length (cand_parties None ?sel)"
    using k len by (simp add: length_cand_parties)
  have "cand_parties None ?sel ! ?k \<in> set (cand_parties None ?sel)"
    using k' by (rule nth_mem)
  then have "recent_party None pre \<in> set (cand_parties None ?sel)"
    using cand_parties_nth[OF c, of None pre post] by simp
  then have "recent_party None pre \<noteq> None"
    using nn by metis
  then obtain np0 where np0: "recent_party None pre = Some np0" by blast
  obtain n pid where "np0 = (n, pid)" by (cases np0) simp
  with np0 have np: "recent_party None pre = Some (n, pid)" by simp
  have "row_get (rc ! ?k) ''candidate_identifier'' =
          map (\<lambda>r. row_get r ''candidate_identifier'') rc ! ?k"
    using nth_map[OF k, of "\<lambda>r. row_get r ''candidate_identifier''"] by simp
  then have cid: "row_get (rc ! ?k) ''candidate_identifier'' = candidate_id_of c"
    unfolding ci using cand_ids_nth[OF c, of pre post] by simp
  have "candidate_id_of c \<in> set (cand_ids ?sel)"
    using c by (simp add: cand_ids_def)
  then have "\<not> isl (candidate_id_of c)" using ok_ids by blast
  then obtain x where x: "candidate_id_of c = Inr x" by (cases "candidate_id_of c") auto
  have f: "filter has_affiliation pre \<noteq> []"
    and po: "party_of (last (filter has_affiliation pre)) = Some (n, pid)"
    using recent_party_None_SomeD[OF np] by blast+
  have rn: "row_get (rc ! ?k) ''party_name'' = Inr n"
    and ri: "row_get (rc ! ?k) ''party_id'' = Inr pid"
    using row_party_SomeD[of "rc ! ?k" n pid] rpk np by simp_all
  have rc: "row_get (rc ! ?k) ''candidate_identifier'' = Inr x"
    using cid x by simp
  show ?thesis
    using f po x k rn ri rc by blast
qed

section \<open>The station item\<close>

subsection \<open>Dictionary assignment\<close>

lemma dict_set_keys:
  "map fst (dict_set k v r) = (if k \<in> set (map fst r) then map fst r else map fst r @ [k])"
  by (induction r) auto

lemma dict_set_keys_set: "set (map fst (dict_set k v r)) = insert k (set (map fst r))"
  by (auto simp: dict_set_keys)

lemma set_reason_columns:
  "set (reason_columns r) = {k. PStr k \<in> set (map fst r) \<and> is_reason_column k}"
  by (induction r rule: reason_columns.induct) auto

subsection \<open>The loops over the breakdowns\<close>

lemma reason_step_Inr:
  assumes "reason_step pre item e = Inr item'"
  shows "\<exists>c v. subscript e ''@ReasonCode'' = Inr (PStr c) \<and> reason_code_of e = [c] \<and>
               item' = dict_set (PStr (pre @ lower c)) v item"
proof -
  from assms obtain code key v where
    a: "subscript e ''@ReasonCode'' = Inr code" "py_lower code = Inr key"
       "item' = dict_set (PStr (pre @ key)) v item"
    unfolding reason_step_def by (auto simp: bnd_Inr_iff)
  from a(2) obtain c where "code = PStr c" "key = lower c" by (cases code) auto
  with a show ?thesis by (auto simp: reason_code_of_def)
qed

lemma reason_step_dict:
  "reason_step pre item e = Inr item' \<Longrightarrow> is_dict e"
  by (cases e) (simp_all add: reason_step_def)

lemma reason_loop_keys:
  "for_loop (reason_step pre) xs item = Inr item' \<Longrightarrow>
   set (map fst item') =
     set (map fst item) \<union> (\<lambda>c. PStr (pre @ lower c)) ` set (concat (map reason_code_of xs)) \<and>
   (\<exists>extra. map fst item' = map fst item @ extra) \<and>
   (\<forall>e\<in>set xs. is_dict e)"
proof (induction xs arbitrary: item)
  case Nil
  then show ?case by simp
next
  case (Cons e xs)
  from Cons.prems obtain item1 where
    s: "reason_step pre item e = Inr item1"
    and l: "for_loop (reason_step pre) xs item1 = Inr item'"
    by (auto simp: bnd_Inr_iff)
  from reason_step_Inr[OF s] obtain c v where
    c: "reason_code_of e = [c]" "item1 = dict_set (PStr (pre @ lower c)) v item" by blast
  from Cons.IH[OF l] obtain extra where
    ih: "set (map fst item') =
       set (map fst item1) \<union> (\<lambda>c. PStr (pre @ lower c)) ` set (concat (map reason_code_of xs))"
      "map fst item' = map fst item1 @ extra" "\<forall>e\<in>set xs. is_dict e" by blast
  have k1: "set (map fst item1) = insert (PStr (pre @ lower c)) (set (map fst item))"
    unfolding c(2) by (rule dict_set_keys_set)
  have "\<exists>extra1. map fst item1 = map fst item @ extra1"
    unfolding c(2) dict_set_keys by simp
  then obtain extra1 where "map fst item1 = map fst item @ extra1" ..
  then have "map fst item' = map fst item @ (extra1 @ extra)" using ih(2) by simp
  moreover have "set (map fst item') =
     set (map fst item) \<union> (\<lambda>c. PStr (pre @ lower c)) ` set (concat (map reason_code_of (e # xs)))"
    unfolding ih(1) k1 using c(1) by auto
  moreover have "\<forall>e'\<in>set (e # xs). is_dict e'"
    using ih(3) reason_step_dict[OF s] by simp
  ultimately show ?case by blast
qed

lemma iter_reason_codes:
  assumes "py_iter v = Inr xs" and "\<forall>e\<in>set xs. is_dict e"
  shows "concat (map reason_code_of xs) = reason_codes v"
proof (cases v)
  case (PList ys)
  with assms show ?thesis by (simp add: reason_codes_def)
next
  case (PDict kvs)
  with assms have "kvs = []" by (cases kvs) auto
  with PDict assms show ?thesis by (simp add: reason_codes_def reason_code_of_def)
next
  case (PStr s)
  with assms have "s = []" by (cases s) auto
  with PStr assms show ?thesis by (simp add: reason_codes_def)
qed (use assms in simp_all)

subsection \<open>The columns of a station item\<close>

lemma station_item_parts:
  assumes "station_item i s = Inr item"
  shows "\<exists>kvs base rejv rejected item1.
           s = PDict kvs \<and> map fst base = base_keys \<and>
           subscript s ''RejectedVotes'' = Inr rejv \<and> py_iter rejv = Inr rejected \<and>
           for_loop (reason_step ''rejected_'') rejected base = Inr item1 \<and>
           (if ''UncountedVotes'' \<in> set (map fst kvs)
            then \<exists>uv uncounted. subscript s ''UncountedVotes'' = Inr uv \<and> py_iter uv = Inr uncounted \<and>
                   for_loop (reason_step ''uncounted_'') uncounted item1 = Inr item
            else item = item1)"
proof -
  from assms obtain station_id station_name n pc cast total rejv rejected item1 has where
    a: "extract_postcode station_name = Inr (n, pc)"
       "subscript s ''Cast'' = Inr cast"
       "subscript s ''RejectedVotes'' = Inr rejv" "py_iter rejv = Inr rejected"
       "for_loop (reason_step ''rejected_'') rejected
          (identity_row i @
             [(PStr ''station_id'', station_id),
              (PStr ''station_name'', n),
              (PStr ''postcode'', pc),
              (PStr ''cast'', cast),
              (PStr ''total_counted'', total)]) = Inr item1"
       "py_in ''UncountedVotes'' s = Inr has"
       "(if has
         then bnd (bnd (subscript s ''UncountedVotes'') py_iter)
                (\<lambda>uncounted. for_loop (reason_step ''uncounted_'') uncounted item1)
         else Inr item1) = Inr item"
    unfolding station_item_def by (auto simp: bnd_Inr_iff)
  from a(2) obtain kvs where s: "s = PDict kvs" by (cases s) auto
  let ?base = "identity_row i @
             [(PStr ''station_id'', station_id),
              (PStr ''station_name'', n),
              (PStr ''postcode'', pc),
              (PStr ''cast'', cast),
              (PStr ''total_counted'', total)]"
  have b: "map fst ?base = base_keys" by (simp add: identity_row_def base_keys_def)
  from a(6) s have has: "has = (''UncountedVotes'' \<in> set (map fst kvs))" by simp
  have u: "if ''UncountedVotes'' \<in> set (map fst kvs)
            then \<exists>uv uncounted. subscript s ''UncountedVotes'' = Inr uv \<and> py_iter uv = Inr uncounted \<and>
                   for_loop (reason_step ''uncounted_'') uncounted item1 = Inr item
            else item = item1"
    using a(7) unfolding has by (auto simp: bnd_Inr_iff split: if_splits)
  show ?thesis using s b a(3,4,5) u by blast
qed

lemma station_codes_absent:
  "k \<notin> set (map fst kvs) \<Longrightarrow> station_codes k (PDict kvs) = []"
proof -
  assume "k \<notin> set (map fst kvs)"
  then have "map_of kvs k = None" by (simp add: map_of_eq_None_iff)
  then show ?thesis by (simp add: station_codes_def)
qed

lemma is_reason_column_prefixed:
  "is_reason_column (''rejected_'' @ x)" "is_reason_column (''uncounted_'' @ x)"
  by (simp_all add: is_reason_column_def)

lemma base_keys_no_reason:
  "PStr k \<in> set base_keys \<Longrightarrow> \<not> is_reason_column k"
  by (auto simp: base_keys_def is_reason_column_def)

lemma keep_in_base: "k \<in> set keep \<Longrightarrow> PStr k \<in> set base_keys"
  by (auto simp: keep_def base_keys_def)

lemma station_item_keys:
  assumes "station_item i s = Inr item"
  shows "set (map fst item) =
           set base_keys \<union>
           (\<lambda>c. PStr (''rejected_'' @ lower c)) ` set (station_codes ''RejectedVotes'' s) \<union>
           (\<lambda>c. PStr (''uncounted_'' @ lower c)) ` set (station_codes ''UncountedVotes'' s)"
proof -
  from station_item_parts[OF assms] obtain kvs base rejv rejected item1 where
    s: "s = PDict kvs" and b: "map fst base = base_keys"
    and rv: "subscript s ''RejectedVotes'' = Inr rejv" "py_iter rejv = Inr rejected"
    and l1: "for_loop (reason_step ''rejected_'') rejected base = Inr item1"
    and u: "if ''UncountedVotes'' \<in> set (map fst kvs)
            then \<exists>uv uncounted. subscript s ''UncountedVotes'' = Inr uv \<and> py_iter uv = Inr uncounted \<and>
                   for_loop (reason_step ''uncounted_'') uncounted item1 = Inr item
            else item = item1" by blast
  from reason_loop_keys[OF l1] have
    k1: "set (map fst item1) =
       set (map fst base) \<union> (\<lambda>c. PStr (''rejected_'' @ lower c)) ` set (concat (map reason_code_of rejected))"
    and d1: "\<forall>e\<in>set rejected. is_dict e" by blast+
  have c1: "concat (map reason_code_of rejected) = station_codes ''RejectedVotes'' s"
    using iter_reason_codes[OF rv(2) d1] rv(1) by (simp add: station_codes_def)
  have k1': "set (map fst item1) =
       set base_keys \<union> (\<lambda>c. PStr (''rejected_'' @ lower c)) ` set (station_codes ''RejectedVotes'' s)"
    using k1 unfolding b c1 .
  show ?thesis
  proof (cases "''UncountedVotes'' \<in> set (map fst kvs)")
    case True
    with u obtain uv uncounted where
      uv: "subscript s ''UncountedVotes'' = Inr uv" "py_iter uv = Inr uncounted"
      and l2: "for_loop (reason_step ''uncounted_'') uncounted item1 = Inr item" by auto
    from reason_loop_keys[OF l2] have
      k2: "set (map fst item) =
         set (map fst item1) \<union> (\<lambda>c. PStr (''uncounted_'' @ lower c)) ` set (concat (map reason_code_of uncounted))"
      and d2: "\<forall>e\<in>set uncounted. is_dict e" by blast+
    have c2: "concat (map reason_code_of uncounted) = station_codes ''UncountedVotes'' s"
      using iter_reason_codes[OF uv(2) d2] uv(1) by (simp add: station_codes_def)
    show ?thesis using k2 unfolding c2 k1' .
  next
    case False
    with u have "item = item1" by simp
    moreover have "station_codes ''UncountedVotes'' s = []"
      unfolding s using False by (rule station_codes_absent)
    ultimately show ?thesis using k1' by simp
  qed
qed

lemma station_item_keep:
  assumes "station_item i s = Inr item"
  shows "\<exists>row_cand. keep_fields item keep = Inr row_cand"
proof -
  have "\<forall>k\<in>set keep. map_of item (PStr k) \<noteq> None"
  proof
    fix k assume "k \<in> set keep"
    then have "PStr k \<in> set base_keys" by (rule keep_in_base)
    then have "PStr k \<in> set (map fst item)" unfolding station_item_keys[OF assms] by blast
    then show "map_of item (PStr k) \<noteq> None" by (simp add: map_of_eq_None_iff)
  qed
  then show ?thesis by (rule keep_fields_total)
qed

lemma station_item_reason_columns:
  assumes "station_item i s = Inr item"
  shows "set (reason_columns item) =
           (\<lambda>c. ''rejected_'' @ lower c) ` set (station_codes ''RejectedVotes'' s) \<union>
           (\<lambda>c. ''uncounted_'' @ lower c) ` set (station_codes ''UncountedVotes'' s)"
  unfolding set_reason_columns station_item_keys[OF assms]
  using base_keys_no_reason is_reason_column_prefixed by auto

lemma recover_code_prefixed:
  "recover_code (''rejected_'' @ x) = x" "recover_code (''uncounted_'' @ x) = x"
  by (simp_all add: recover_code_def)

lemma station_item_roundtrip:
  assumes "station_item i s = Inr item"
  shows "recover_code ` set (reason_columns item) =
           lower ` (set (station_codes ''RejectedVotes'' s) \<union> set (station_codes ''UncountedVotes'' s))"
  unfolding station_item_reason_columns[OF assms]
  by (simp only: image_Un image_image recover_code_prefixed)

subsection \<open>The columns of the aggregate row\<close>

lemma party_columns_Cons:
  "party_columns (r # rs) =
     (if has_affiliation r
      then (case party_of r of Some (n, pid) \<Rightarrow> [n] | None \<Rightarrow> []) @ party_columns rs
      else party_columns rs)"
  by (simp add: party_columns_def)

lemma selection_loop_keys:
  "for_loop (selection_step pc item) rs (row, rows, p) = Inr (row', rows', p') \<Longrightarrow>
   \<exists>cols. map fst row' = map fst row @ cols \<and> set cols \<subseteq> set (party_columns rs)"
proof (induction rs arbitrary: row rows p)
  case Nil
  then show ?case by simp
next
  case (Cons r rs)
  from Cons.prems obtain st1 where
    s1: "selection_step pc item (row, rows, p) r = Inr st1"
    and l1: "for_loop (selection_step pc item) rs st1 = Inr (row', rows', p')"
    by (auto simp: bnd_Inr_iff)
  obtain row1 rows1 p1 where st1: "st1 = (row1, rows1, p1)" by (cases st1) auto
  from Cons.IH[OF l1[unfolded st1]] obtain cols where
    ih: "map fst row' = map fst row1 @ cols" "set cols \<subseteq> set (party_columns rs)" by blast
  have "\<exists>c1. map fst row1 = map fst row @ c1 \<and> set c1 \<subseteq> set (party_columns (r # rs))"
  proof (cases "has_affiliation r")
    case True
    from selection_step_party[OF True s1[unfolded st1]] obtain n pid v where
      n: "party_of r = Some (n, pid)" "row1 = dict_set n v row" by blast
    have "map fst row1 = map fst row @ (if n \<in> set (map fst row) then [] else [n])"
      unfolding n(2) dict_set_keys by simp
    moreover have "set (if n \<in> set (map fst row) then [] else [n]) \<subseteq> set (party_columns (r # rs))"
      using True n(1) by (simp add: party_columns_Cons)
    ultimately show ?thesis by blast
  next
    case False
    have "row1 = row"
    proof (cases pc)
      case True
      then have "selection_step True item (row, rows, p) r = Inr (row1, rows1, p1)"
        using s1 st1 by simp
      from selection_step_candidate[OF False this] show ?thesis by blast
    next
      case pcF: False
      then have "selection_step False item (row, rows, p) r = Inr (row1, rows1, p1)"
        using s1 st1 by simp
      from selection_step_skip[OF False this] show ?thesis by blast
    qed
    then show ?thesis by simp
  qed
  then obtain c1 where c1: "map fst row1 = map fst row @ c1" "set c1 \<subseteq> set (party_columns (r # rs))"
    by blast
  have "set (party_columns rs) \<subseteq> set (party_columns (r # rs))"
    by (auto simp: party_columns_Cons)
  then have "set (c1 @ cols) \<subseteq> set (party_columns (r # rs))" using c1(2) ih(2) by auto
  moreover have "map fst row' = map fst row @ (c1 @ cols)" using ih(1) c1(1) by simp
  ultimately show ?case by blast
qed

lemma all_Inr:
  "\<forall>e\<in>set xs. \<not> isl e \<Longrightarrow> \<exists>ys. xs = map Inr ys"
proof (induction xs)
  case Nil
  then show ?case by simp
next
  case (Cons x xs)
  then obtain ys where "xs = map Inr ys" by auto
  moreover from Cons.prems obtain y where "x = Inr y" by (cases x) auto
  ultimately have "x # xs = map Inr (y # ys)" by simp
  then show ?case by (rule exI)
qed

lemma selection_loop_keys_set:
  "for_loop (selection_step pc item) rs (row, rows, p) = Inr (row', rows', p') \<Longrightarrow>
   set (map fst row') = set (map fst row) \<union> set (party_columns rs)"
proof (induction rs arbitrary: row rows p)
  case Nil
  then show ?case by (simp add: party_columns_def)
next
  case (Cons r rs)
  from Cons.prems obtain st1 where
    s1: "selection_step pc item (row, rows, p) r = Inr st1"
    and l1: "for_loop (selection_step pc item) rs st1 = Inr (row', rows', p')"
    by (auto simp: bnd_Inr_iff)
  obtain row1 rows1 p1 where st1: "st1 = (row1, rows1, p1)" by (cases st1) auto
  from Cons.IH[OF l1[unfolded st1]]
  have ih: "set (map fst row') = set (map fst row1) \<union> set (party_columns rs)" .
  show ?case
  proof (cases "has_affiliation r")
    case True
    from selection_step_party[OF True s1[unfolded st1]] obtain n pid v where
      n: "party_of r = Some (n, pid)" "row1 = dict_set n v row" by blast
    have "set (map fst row1) = insert n (set (map fst row))"
      unfolding n(2) by (rule dict_set_keys_set)
    moreover have "set (party_columns (r # rs)) = insert n (set (party_columns rs))"
      using True n(1) by (simp add: party_columns_Cons)
    ultimately show ?thesis using ih by auto
  next
    case False
    have "row1 = row"
    proof (cases pc)
      case True
      then have "selection_step True item (row, rows, p) r = Inr (row1, rows1, p1)"
        using s1 st1 by simp
      from selection_step_candidate[OF False this] show ?thesis by blast
    next
      case pcF: False
      then have "selection_step False item (row, rows, p) r = Inr (row1, rows1, p1)"
        using s1 st1 by simp
      from selection_step_skip[OF False this] show ?thesis by blast
    qed
    moreover have "party_columns (r # rs) = party_columns rs"
      using False by (simp add: party_columns_Cons)
    ultimately show ?thesis using ih by simp
  qed
qed

lemma set_reason_names:
  "set (reason_names names) = {k. PStr k \<in> set names \<and> is_reason_column k}"
  by (induction names rule: reason_names.induct) auto

subsection \<open>Unbound party variables\<close>

lemma station_body_unbound:
  assumes it: "station_item i s = Inr item"
    and sr: "station_results s = Inr (c # rs)"
    and c: "is_dict c" "\<not> has_affiliation c"
  shows "station_body True i (ra, rc, None) s = Inl UnboundLocalError"
proof -
  from station_item_keep[OF it] obtain row_cand where "keep_fields item keep = Inr row_cand" ..
  from selection_step_unbound[OF c this]
  have "selection_step True item (item, rc, None) c = Inl UnboundLocalError" .
  then show ?thesis unfolding station_body_def using it sr by simp
qed

lemma stations_loop_append:
  assumes "stations_loop pc i xs st = (out, Inr st1)"
  shows "stations_loop pc i (xs @ ys) st =
           (out @ fst (stations_loop pc i ys st1), snd (stations_loop pc i ys st1))"
  using assms
proof (induction xs arbitrary: st out)
  case Nil
  then show ?case by simp
next
  case (Cons x xs)
  from stations_loop_Cons_ok[OF Cons.prems] obtain st2 out2 where
    b: "station_body pc i st x = Inr st2"
    and l: "stations_loop pc i xs st2 = (out2, Inr st1)" by blast
  have out: "out = station_print x @ out2" using Cons.prems b l by simp
  from Cons.IH[OF l] show ?case using b out by simp
qed

lemma parse_header_dict:
  assumes "parse_header data = Inr hc"
  shows "isnull data = Inr False"
proof -
  from assms obtain x where "subscript data ''EML'' = Inr x"
    unfolding parse_header_def by (auto simp: bnd_Inr_iff)
  then show ?thesis by (cases data) auto
qed

lemma parse_election_data_unbound:
  assumes h: "parse_header data = Inr (i, contest)"
    and st: "stations_of i contest = Inr (ra0, before @ s # after)"
    and bl: "stations_loop True i before (ra0, [], None) = (out0, Inr st1)"
    and sel0: "all_results before = Inr sel0" "filter has_affiliation sel0 = []"
    and it: "station_item i s = Inr item"
    and sr: "station_results s = Inr (c # rs)"
    and c: "is_dict c" "\<not> has_affiliation c"
  shows "snd (parse_election_data data True) = Inl UnboundLocalError"
proof -
  obtain ra1 rc1 p1 where st1: "st1 = (ra1, rc1, p1)" by (cases st1) auto
  from stations_loop_rows[OF bl[unfolded st1]] sel0 have "p1 = recent_party None sel0" by auto
  then have p1: "p1 = None" using sel0(2) by (simp add: recent_party_def)
  have sb: "station_body True i (ra1, rc1, None) s = Inl UnboundLocalError"
    using it sr c by (rule station_body_unbound)
  have "snd (stations_loop True i (s # after) st1) = Inl UnboundLocalError"
    unfolding st1 p1 using sb by simp
  then have "snd (stations_loop True i (before @ s # after) (ra0, [], None)) = Inl UnboundLocalError"
    using stations_loop_append[OF bl] by simp
  then obtain out where
    "stations_loop True i (before @ s # after) (ra0, [], None) = (out, Inl UnboundLocalError)"
    by (cases "stations_loop True i (before @ s # after) (ra0, [], None)") simp
  then show ?thesis
    unfolding parse_election_data_def using parse_header_dict[OF h] h st
    by simp
qed

section \<open>The election domain\<close>

lemma subscript_PDict:
  "subscript (PDict kvs) k = (case map_of kvs k of None \<Rightarrow> Inl KeyError | Some v \<Rightarrow> Inr v)"
  by simp

lemma parse_header_domain:
  assumes "parse_header data = Inr (i, contest)"
  shows "\<exists>ei. subscripts data [''EML'', ''Count'', ''Election'', ''ElectionIdentifier''] = Inr ei \<and>
              election_domain_fields ei = Inr (election_domain_id i, election_domain_name i)"
  using assms
  by (auto simp: parse_header_def bnd_def split: sum.splits prod.splits)

subsection \<open>Trees of the XML parser\<close>

lemma xml_entries_map_of:
  "xml_entries kvs \<Longrightarrow> map_of kvs k = Some v \<Longrightarrow> take 1 k \<noteq> ''@'' \<Longrightarrow> xml_tree v"
  by (induction kvs) (auto split: if_splits)

lemma xml_tree_subscript:
  assumes "xml_tree v" and "subscript v k = Inr w" and "take 1 k \<noteq> ''@''"
  shows "xml_tree w"
proof -
  from assms(2) obtain kvs where v: "v = PDict kvs" by (cases v) auto
  with assms(2) have "map_of kvs k = Some w" by (auto split: option.splits)
  with assms(1,3) v show ?thesis using xml_entries_map_of by simp
qed

lemma xml_tree_identifier:
  assumes "xml_tree data"
    and "subscripts data [''EML'', ''Count'', ''Election'', ''ElectionIdentifier''] = Inr ei"
  shows "xml_tree ei"
proof -
  from assms(2) obtain a b c where
    s: "subscript data ''EML'' = Inr a" "subscript a ''Count'' = Inr b"
       "subscript b ''Election'' = Inr c" "subscript c ''ElectionIdentifier'' = Inr ei"
    by (auto simp: bnd_Inr_iff)
  have "xml_tree a" using xml_tree_subscript[OF assms(1) s(1)] by simp
  then have "xml_tree b" using xml_tree_subscript[OF _ s(2)] by simp
  then have "xml_tree c" using xml_tree_subscript[OF _ s(3)] by simp
  then show ?thesis using xml_tree_subscript[OF _ s(4)] by simp
qed

text \<open>
  Claim C3. For the election identifier of a document, a dictionary: when the domain
  key is absent both fields are \<^verbatim>\<open>None\<close>; when the domain is a bare string, in a
  tree that \<^verbatim>\<open>xmltodict\<close> builds, it is the name and the id is \<^verbatim>\<open>None\<close>; when it
  is a dictionary the id is its \<^verbatim>\<open>@Id\<close> and the name its \<^verbatim>\<open>#text\<close>, each
  \<^verbatim>\<open>None\<close> when that key is absent. Whenever the header of a document is read, its
  two domain fields are the ones resolved from the document's election identifier, and
  the identifier of a tree that \<^verbatim>\<open>xmltodict\<close> builds is such a tree.
\<close>

theorem election_domain_by_shape:
  "(map_of kvs ''kr:ElectionDomain'' = None \<longrightarrow>
      election_domain_fields (PDict kvs) = Inr (PNone, PNone)) \<and>
   (xml_tree (PDict kvs) \<and> map_of kvs ''kr:ElectionDomain'' = Some (PStr s) \<longrightarrow>
      election_domain_fields (PDict kvs) = Inr (PNone, PStr s)) \<and>
   (map_of kvs ''kr:ElectionDomain'' = Some (PDict d) \<longrightarrow>
      election_domain_fields (PDict kvs) =
        Inr (case map_of d ''@Id'' of None \<Rightarrow> PNone | Some v \<Rightarrow> v,
             case map_of d ''#text'' of None \<Rightarrow> PNone | Some v \<Rightarrow> v)) \<and>
   (parse_header data = Inr (i, contest) \<longrightarrow>
      (\<exists>ei. subscripts data [''EML'', ''Count'', ''Election'', ''ElectionIdentifier''] = Inr ei \<and>
            election_domain_fields ei = Inr (election_domain_id i, election_domain_name i))) \<and>
   (xml_tree data \<and>
    subscripts data [''EML'', ''Count'', ''Election'', ''ElectionIdentifier''] = Inr ei \<longrightarrow>
      xml_tree ei)"
proof (intro conjI impI)
  assume "map_of kvs ''kr:ElectionDomain'' = None"
  then show "election_domain_fields (PDict kvs) = Inr (PNone, PNone)"
    by (simp add: election_domain_fields_def bnd_def try_except_def)
next
  assume a: "xml_tree (PDict kvs) \<and> map_of kvs ''kr:ElectionDomain'' = Some (PStr s)"
  then have "xml_tree (PStr s)" using xml_entries_map_of[of kvs "''kr:ElectionDomain''" "PStr s"] by simp
  then have "s \<noteq> []" by simp
  with a show "election_domain_fields (PDict kvs) = Inr (PNone, PStr s)"
    by (simp add: election_domain_fields_def bnd_def try_except_def)
next
  assume "map_of kvs ''kr:ElectionDomain'' = Some (PDict d)"
  then show "election_domain_fields (PDict kvs) =
        Inr (case map_of d ''@Id'' of None \<Rightarrow> PNone | Some v \<Rightarrow> v,
             case map_of d ''#text'' of None \<Rightarrow> PNone | Some v \<Rightarrow> v)"
    by (cases d) (auto simp: election_domain_fields_def bnd_def try_except_def split: option.splits)
next
  assume "parse_header data = Inr (i, contest)"
  then show "\<exists>ei. subscripts data [''EML'', ''Count'', ''Election'', ''ElectionIdentifier''] = Inr ei \<and>
            election_domain_fields ei = Inr (election_domain_id i, election_domain_name i)"
    by (rule parse_header_domain)
next
  assume "xml_tree data \<and>
    subscripts data [''EML'', ''Count'', ''Election'', ''ElectionIdentifier''] = Inr ei"
  then show "xml_tree ei" using xml_tree_identifier by blast
qed

text \<open>The header of an example document whose domain has an id and no text.\<close>

lemma ex_header:
  "parse_header (example_count (example_identifier [(''kr:ElectionDomain'', PDict [(''@Id'', PStr ''0363'')])]) [])
   = Inr (\<lparr>election_id = PStr ''GR2018'', election_name = PStr ''Gemeenteraad'',
            election_domain_id = PStr ''0363'', election_domain_name = PNone,
            election_date = PStr ''2018-03-21'', contest_name = PNone,
            managing_authority = PStr ''Amsterdam''\<rparr>,
          PDict [(''ContestIdentifier'', PDict [(''@Id'', PStr ''geen'')])])"
  by (simp add: parse_header_def example_count_def example_identifier_def bnd_def try_except_def election_domain_fields_def)

text \<open>
  Outside the trees that \<^verbatim>\<open>xmltodict\<close> builds: a domain that were the empty string
  is not truthy on line 92 and would resolve both fields to \<^verbatim>\<open>None\<close>.
\<close>

lemma election_domain_empty_string:
  "election_domain_fields (example_identifier [(''kr:ElectionDomain'', PStr [])]) = Inr (PNone, PNone) \<and>
   \<not> xml_tree (example_identifier [(''kr:ElectionDomain'', PStr [])])"
  by (simp add: example_identifier_def bnd_def try_except_def election_domain_fields_def)

text \<open>Claim C3, witness: the shapes of the domain, and two whole documents.\<close>

theorem election_domain_by_shape_witness:
  "election_domain_fields (example_identifier []) = Inr (PNone, PNone) \<and>
   election_domain_fields (example_identifier [(''kr:ElectionDomain'', PStr ''Amsterdam'')]) =
     Inr (PNone, PStr ''Amsterdam'') \<and>
   election_domain_fields
     (example_identifier [(''kr:ElectionDomain'', PDict [(''@Id'', PStr ''0363''), (''#text'', PStr ''Amsterdam'')])]) =
     Inr (PStr ''0363'', PStr ''Amsterdam'') \<and>
   election_domain_fields (example_identifier [(''kr:ElectionDomain'', PDict [(''@Id'', PStr ''0363'')])]) =
     Inr (PStr ''0363'', PNone) \<and>
   election_domain_fields (example_identifier [(''kr:ElectionDomain'', PDict [(''#text'', PStr ''Amsterdam'')])]) =
     Inr (PNone, PStr ''Amsterdam'') \<and>
   (\<exists>i contest ei.
      parse_header (example_count (example_identifier [(''kr:ElectionDomain'', PDict [(''@Id'', PStr ''0363'')])]) [])
        = Inr (i, contest) \<and>
      subscripts (example_count (example_identifier [(''kr:ElectionDomain'', PDict [(''@Id'', PStr ''0363'')])]) [])
        [''EML'', ''Count'', ''Election'', ''ElectionIdentifier''] = Inr ei \<and>
      election_domain_fields ei = Inr (election_domain_id i, election_domain_name i) \<and>
      election_domain_id i = PStr ''0363'' \<and> election_domain_name i = PNone) \<and>
   (\<exists>i contest.
      parse_header (example_count (example_identifier [(''kr:ElectionDomain'', PStr ''Amsterdam'')]) [])
        = Inr (i, contest) \<and>
      xml_tree (example_count (example_identifier [(''kr:ElectionDomain'', PStr ''Amsterdam'')]) []) \<and>
      xml_tree (example_identifier [(''kr:ElectionDomain'', PStr ''Amsterdam'')]) \<and>
      election_domain_id i = PNone \<and> election_domain_name i = PStr ''Amsterdam'')"
proof -
  let ?pre = "[(''@Id'', PStr ''GR2018''), (''ElectionName'', PStr ''Gemeenteraad'')]"
  let ?post = "[(''kr:ElectionDate'', PStr ''2018-03-21'')]"
  have a: "election_domain_fields (example_identifier []) = Inr (PNone, PNone)"
    using election_domain_by_shape[of "?pre @ [] @ ?post"]
    by (simp add: example_identifier_def)
  have b: "election_domain_fields (example_identifier [(''kr:ElectionDomain'', PStr ''Amsterdam'')]) =
     Inr (PNone, PStr ''Amsterdam'')"
    using election_domain_by_shape[of "?pre @ [(''kr:ElectionDomain'', PStr ''Amsterdam'')] @ ?post" "''Amsterdam''"]
    by (simp add: example_identifier_def)
  have c: "election_domain_fields
     (example_identifier [(''kr:ElectionDomain'', PDict [(''@Id'', PStr ''0363''), (''#text'', PStr ''Amsterdam'')])]) =
     Inr (PStr ''0363'', PStr ''Amsterdam'')"
    using election_domain_by_shape[of "?pre @ [(''kr:ElectionDomain'', PDict [(''@Id'', PStr ''0363''), (''#text'', PStr ''Amsterdam'')])] @ ?post"
        _ "[(''@Id'', PStr ''0363''), (''#text'', PStr ''Amsterdam'')]"]
    by (simp add: example_identifier_def)
  have d: "election_domain_fields (example_identifier [(''kr:ElectionDomain'', PDict [(''@Id'', PStr ''0363'')])]) =
     Inr (PStr ''0363'', PNone)"
    using election_domain_by_shape[of "?pre @ [(''kr:ElectionDomain'', PDict [(''@Id'', PStr ''0363'')])] @ ?post"
        _ "[(''@Id'', PStr ''0363'')]"]
    by (simp add: example_identifier_def)
  have e: "election_domain_fields (example_identifier [(''kr:ElectionDomain'', PDict [(''#text'', PStr ''Amsterdam'')])]) =
     Inr (PNone, PStr ''Amsterdam'')"
    using election_domain_by_shape[of "?pre @ [(''kr:ElectionDomain'', PDict [(''#text'', PStr ''Amsterdam'')])] @ ?post"
        _ "[(''#text'', PStr ''Amsterdam'')]"]
    by (simp add: example_identifier_def)
  let ?i = "\<lparr>election_id = PStr ''GR2018'', election_name = PStr ''Gemeenteraad'',
            election_domain_id = PStr ''0363'', election_domain_name = PNone,
            election_date = PStr ''2018-03-21'', contest_name = PNone,
            managing_authority = PStr ''Amsterdam''\<rparr>"
  have f: "\<exists>ei. subscripts (example_count (example_identifier [(''kr:ElectionDomain'', PDict [(''@Id'', PStr ''0363'')])]) [])
        [''EML'', ''Count'', ''Election'', ''ElectionIdentifier''] = Inr ei \<and>
      election_domain_fields ei = Inr (election_domain_id ?i, election_domain_name ?i)"
    using election_domain_by_shape[of _ _ _
        "example_count (example_identifier [(''kr:ElectionDomain'', PDict [(''@Id'', PStr ''0363'')])]) []" ?i
        "PDict [(''ContestIdentifier'', PDict [(''@Id'', PStr ''geen'')])]"] ex_header
    by blast
  from f obtain ei where ei: "subscripts (example_count (example_identifier [(''kr:ElectionDomain'', PDict [(''@Id'', PStr ''0363'')])]) [])
        [''EML'', ''Count'', ''Election'', ''ElectionIdentifier''] = Inr ei"
      "election_domain_fields ei = Inr (election_domain_id ?i, election_domain_name ?i)" by blast
  have sel: "election_domain_id ?i = PStr ''0363''" "election_domain_name ?i = PNone" by simp_all
  from ex_header ei sel have g: "\<exists>i contest ei.
      parse_header (example_count (example_identifier [(''kr:ElectionDomain'', PDict [(''@Id'', PStr ''0363'')])]) [])
        = Inr (i, contest) \<and>
      subscripts (example_count (example_identifier [(''kr:ElectionDomain'', PDict [(''@Id'', PStr ''0363'')])]) [])
        [''EML'', ''Count'', ''Election'', ''ElectionIdentifier''] = Inr ei \<and>
      election_domain_fields ei = Inr (election_domain_id i, election_domain_name i) \<and>
      election_domain_id i = PStr ''0363'' \<and> election_domain_name i = PNone"
    by blast
  let ?D = "example_count (example_identifier [(''kr:ElectionDomain'', PStr ''Amsterdam'')]) []"
  let ?E = "example_identifier [(''kr:ElectionDomain'', PStr ''Amsterdam'')]"
  have "\<not> isl (parse_header ?D)" by code_simp
  then obtain hc where "parse_header ?D = Inr hc" by (cases "parse_header ?D") auto
  then obtain j contest where ph: "parse_header ?D = Inr (j, contest)" by (cases hc) auto
  have xd: "xml_tree ?D" by code_simp
  have sub: "subscripts ?D [''EML'', ''Count'', ''Election'', ''ElectionIdentifier''] = Inr ?E"
    by code_simp
  have xs: "xml_tree ?D \<and>
      subscripts ?D [''EML'', ''Count'', ''Election'', ''ElectionIdentifier''] = Inr ?E"
    using xd sub by (intro conjI) assumption+
  have xe: "xml_tree ?E"
    using election_domain_by_shape[where data = ?D and ei = ?E,
        THEN conjunct2, THEN conjunct2, THEN conjunct2, THEN conjunct2, THEN mp, OF xs] .
  from election_domain_by_shape[where data = ?D and i = j and contest = contest,
        THEN conjunct2, THEN conjunct2, THEN conjunct2, THEN conjunct1, THEN mp, OF ph]
  obtain ei' where ei': "subscripts ?D [''EML'', ''Count'', ''Election'', ''ElectionIdentifier''] = Inr ei'"
      "election_domain_fields ei' = Inr (election_domain_id j, election_domain_name j)" by blast
  from ei'(1) sub have "ei' = ?E" by simp
  with ei'(2) b have "election_domain_id j = PNone" "election_domain_name j = PStr ''Amsterdam''"
    by simp_all
  with ph xd xe have h: "\<exists>i contest.
      parse_header ?D = Inr (i, contest) \<and> xml_tree ?D \<and> xml_tree ?E \<and>
      election_domain_id i = PNone \<and> election_domain_name i = PStr ''Amsterdam''"
    by blast
  show ?thesis using a b c d e g h by blast
qed

section \<open>Documents on which the parser raises\<close>

text \<open>A batch whose first files are processed gives, for the rest, what the loop
  gives from the tables built so far.\<close>

lemma files_loop_append:
  assumes "files_loop pc before dfs = (out1, Inr dfs1)"
  shows "files_loop pc (before @ rest) dfs =
           (out1 @ fst (files_loop pc rest dfs1), snd (files_loop pc rest dfs1))"
  using assms
proof (induction before arbitrary: dfs out1)
  case Nil
  then show ?case by simp
next
  case (Cons pf pfs)
  obtain o1 r1 where p: "process_file pc dfs pf = (o1, r1)" by (cases "process_file pc dfs pf")
  with Cons.prems obtain dfs2 where r1: "r1 = Inr dfs2"
    by (cases r1) auto
  obtain o2 r2 where l: "files_loop pc pfs dfs2 = (o2, r2)" by (cases "files_loop pc pfs dfs2")
  from Cons.prems p r1 l have "r2 = Inr dfs1" "out1 = o1 @ o2" by simp_all
  with l have l': "files_loop pc pfs dfs2 = (o2, Inr dfs1)" by simp
  from Cons.IH[OF l'] show ?case using p r1 \<open>out1 = o1 @ o2\<close>
    by (simp split: prod.splits)
qed

text \<open>
  Claim C1, as amended. \<^verbatim>\<open>read_eml\<close> answers a decoding error with a diagnostic
  naming the file, then the error, and \<^verbatim>\<open>None\<close>, and \<^verbatim>\<open>parse_election_data\<close>
  answers \<^verbatim>\<open>None\<close> with the empty list. No failure of a document is isolated: an
  exception of \<^verbatim>\<open>read_eml\<close> or of \<^verbatim>\<open>parse_election_data\<close> is the outcome of that
  file, and a file whose outcome is an exception ends the loop over the batch with that
  exception, whatever files come after it.
\<close>

theorem batch_failure_propagates:
  "read_eml p (Undecodable msg) = ([path_name p, msg], Inr PNone) \<and>
   parse_election_data PNone pc = ([], Inr Empty_list) \<and>
   (read_eml p f = (out, Inl e) \<longrightarrow> process_file pc dfs (p, f) = (out, Inl e)) \<and>
   (read_eml p f = (out, Inr data) \<and> parse_election_data data pc = (out', Inl e) \<longrightarrow>
      process_file pc dfs (p, f) = (out @ out', Inl e)) \<and>
   (files_loop pc before dfs = (out1, Inr dfs1) \<and> process_file pc dfs1 pf = (out2, Inl e) \<longrightarrow>
      files_loop pc (before @ pf # after) dfs = (out1 @ out2, Inl e))"
proof (intro conjI impI)
  show "read_eml p (Undecodable msg) = ([path_name p, msg], Inr PNone)" by simp
  show "parse_election_data PNone pc = ([], Inr Empty_list)"
    by (simp add: parse_election_data_def)
next
  assume "read_eml p f = (out, Inl e)"
  then show "process_file pc dfs (p, f) = (out, Inl e)" by (simp add: process_file_def)
next
  assume "read_eml p f = (out, Inr data) \<and> parse_election_data data pc = (out', Inl e)"
  then show "process_file pc dfs (p, f) = (out @ out', Inl e)" by (simp add: process_file_def)
next
  assume a: "files_loop pc before dfs = (out1, Inr dfs1) \<and> process_file pc dfs1 pf = (out2, Inl e)"
  then have l: "files_loop pc before dfs = (out1, Inr dfs1)"
    and p: "process_file pc dfs1 pf = (out2, Inl e)" by blast+
  from p have "files_loop pc (pf # after) dfs1 = (out2, Inl e)" by simp
  with files_loop_append[OF l, of "pf # after"]
  show "files_loop pc (before @ pf # after) dfs = (out1 @ out2, Inl e)" by simp
qed

text \<open>
  Claim C1, witness: a file that is not well-formed XML, followed by a file that
  parses; and a well-formed file that is not a vote count.
\<close>

theorem batch_failure_propagates_witness:
  "process_file False [] (example_path ''Telling_A'', Malformed) = ([], Inl ExpatError) \<and>
   files_loop False ([] @ (example_path ''Telling_A'', Malformed) # [telling_b]) [] =
     ([] @ [], Inl ExpatError) \<and>
   process_file False [] (example_path ''Telling_A'', Parsed not_a_count) = ([] @ [], Inl KeyError)"
proof -
  have r: "read_eml (example_path ''Telling_A'') Malformed = ([], Inl ExpatError)" by simp
  have a: "process_file False [] (example_path ''Telling_A'', Malformed) = ([], Inl ExpatError)"
    using batch_failure_propagates[where p = "example_path ''Telling_A''" and f = Malformed
        and out = "[]" and e = ExpatError and pc = False and dfs = "[]",
        THEN conjunct2, THEN conjunct2, THEN conjunct1, THEN mp, OF r] .
  have l: "files_loop False [] [] = ([], Inr [])" by simp
  have la: "files_loop False [] [] = ([], Inr []) \<and>
            process_file False [] (example_path ''Telling_A'', Malformed) = ([], Inl ExpatError)"
    using l a by (intro conjI) assumption+
  have b: "files_loop False ([] @ (example_path ''Telling_A'', Malformed) # [telling_b]) [] =
     ([] @ [], Inl ExpatError)"
    using batch_failure_propagates[where pc = False and before = "[]" and dfs = "[]"
        and ?out1.0 = "[]" and ?dfs1.0 = "[]" and pf = "(example_path ''Telling_A'', Malformed)"
        and ?out2.0 = "[]" and e = ExpatError and after = "[telling_b]",
        THEN conjunct2, THEN conjunct2, THEN conjunct2, THEN conjunct2, THEN mp, OF la] .
  have r2: "read_eml (example_path ''Telling_A'') (Parsed not_a_count) = ([], Inr not_a_count)"
    by simp
  have pe: "parse_election_data not_a_count False = ([], Inl KeyError)" by code_simp
  have rp: "read_eml (example_path ''Telling_A'') (Parsed not_a_count) = ([], Inr not_a_count) \<and>
            parse_election_data not_a_count False = ([], Inl KeyError)"
    using r2 pe by (intro conjI) assumption+
  have c: "process_file False [] (example_path ''Telling_A'', Parsed not_a_count) = ([] @ [], Inl KeyError)"
    using batch_failure_propagates[where p = "example_path ''Telling_A''" and f = "Parsed not_a_count"
        and out = "[]" and data = not_a_count and out' = "[]" and e = KeyError and pc = False
        and dfs = "[]",
        THEN conjunct2, THEN conjunct2, THEN conjunct2, THEN conjunct1, THEN mp, OF rp] .
  from a b c show ?thesis by (intro conjI) assumption+
qed

text \<open>
  Claim C1, counterexample to the claim as stated: a failure in the first document
  halts the batch, and the second document, which alone gives its table, gets none.
\<close>

theorem batch_isolation_counterexample:
  "process_files [(example_path ''Telling_A'', Malformed), telling_b] False = ([], Inl ExpatError) \<and>
   process_files [(example_path ''Telling_A'', Parsed not_a_count), telling_b] False = ([], Inl KeyError) \<and>
   (case snd (process_files [telling_b] False) of Inl e \<Rightarrow> [] | Inr dfs \<Rightarrow> map fst dfs) =
     [''Telling_B_aggregate'']"
  by code_simp

text \<open>
  The decoding error itself. \<^verbatim>\<open>read_eml\<close> opens the file with
  \<^verbatim>\<open>errors='backslashreplace'\<close>, under which the decoder does not raise; the
  outcome below is the one its handler is written for. The handler prints and answers
  \<^verbatim>\<open>None\<close>, \<^verbatim>\<open>parse_election_data\<close> answers the empty list, and the unpacking
  on line 230 raises ValueError.
\<close>

lemma process_files_decode_failure:
  "process_files [(example_path ''Telling_A'', Undecodable ''invalid start byte''), telling_b] False =
     ([''Telling_A.xml'', ''invalid start byte''], Inl ValueError)"
  by code_simp

text \<open>
  The sibling loop over the candidate lists tests the document before parsing it, and
  passes over the one that cannot be decoded.
\<close>

lemma create_candidate_list_decode_failure:
  "create_candidate_list [(example_path ''Kandidatenlijsten_A'', Undecodable ''invalid start byte'')] =
     ([''Kandidatenlijsten_A.xml'', ''invalid start byte''], Inr \<lparr>df_columns = [], df_rows = []\<rparr>)"
  by code_simp

text \<open>
  Claim C2, at a document whose first reporting unit is a bare string. The string is
  printed; the station id and name resolve to \<^verbatim>\<open>None\<close>, and
  \<^verbatim>\<open>extract_postcode(None)\<close> raises TypeError, which ends the document: the
  well-formed station after it gives no row.
\<close>

theorem parse_election_data_string_station:
  "parse_election_data
     (example_document (PList [PStr ''oops'', example_station example_rui (PList [])])) False =
     ([''oops''], Inl TypeError) \<and>
   parse_election_data (example_document (PStr ''oops'')) False = ([''oops''], Inl TypeError)"
  by code_simp

text \<open>
  Claim C6, at reporting units whose identifier lacks the name, lacks the id, or is a
  bare string. A missing key is a KeyError, which the handlers on lines 151 and 155 do
  not catch; with a bare string both fields resolve to \<^verbatim>\<open>None\<close> and
  \<^verbatim>\<open>extract_postcode(None)\<close> raises TypeError. No row is emitted in any of the
  three.
\<close>

theorem parse_election_data_station_fields:
  "parse_election_data
     (example_document (example_station (PDict [(''@Id'', PStr ''SB1'')]) (PList []))) False =
     ([], Inl KeyError) \<and>
   parse_election_data
     (example_document (example_station (PDict [(''#text'', PStr ''Stembureau 1'')]) (PList []))) False =
     ([], Inl KeyError) \<and>
   parse_election_data
     (example_document (example_station (PStr ''Stembureau 1'') (PList []))) False =
     ([], Inl TypeError)"
  by code_simp

text \<open>
  Claim C5, at a candidate without a last name, and at one without initials. The
  handlers of these two fields catch TypeError only, so the missing key is a KeyError
  that ends the document; the candidate after it gives no row either.
\<close>

theorem parse_candidates_missing_name_field:
  "parse_candidates
     (example_roster (PList
        [example_candidate (example_person [example_initials, example_first_name])
           ((''Gender'', PStr ''male'') # example_address),
         example_candidate (example_person [example_initials, example_first_name, example_last_name])
           ((''Gender'', PStr ''male'') # example_address)])) [] = Inl KeyError \<and>
   parse_candidates
     (example_roster (PList
        [example_candidate (example_person [example_first_name, example_last_name])
           ((''Gender'', PStr ''male'') # example_address),
         example_candidate (example_person [example_initials, example_first_name, example_last_name])
           ((''Gender'', PStr ''male'') # example_address)])) [] = Inl KeyError"
  by code_simp

text \<open>
  A candidate without a \<^verbatim>\<open>Gender\<close> key does give its row, with the gender
  \<^verbatim>\<open>None\<close> and the other fields as in the document.
\<close>

lemma parse_candidates_no_gender:
  "(case parse_candidates
     (example_roster (PList
        [example_candidate (example_person [example_initials, example_first_name, example_last_name])
           example_address,
         example_candidate (example_person [example_initials, example_first_name, example_last_name])
           ((''Gender'', PStr ''male'') # example_address)])) [] of
     Inl e \<Rightarrow> []
   | Inr rows \<Rightarrow> map (\<lambda>r. map (map_of r)
        [PStr ''first_name'', PStr ''last_name'', PStr ''initials'', PStr ''prefix'', PStr ''gender'', PStr ''address'']) rows)
   = [[Some (PStr ''Jan''), Some (PStr ''Jansen''), Some (PStr ''J.''), Some PNone, Some PNone, Some (PStr ''Amsterdam'')],
      [Some (PStr ''Jan''), Some (PStr ''Jansen''), Some (PStr ''J.''), Some PNone, Some (PStr ''male''), Some (PStr ''Amsterdam'')]]"
  by code_simp

text \<open>
  Claim C7, at a candidate whose name block has no key that starts with \<^verbatim>\<open>ns\<close>.
  As the first candidate of the document it leaves \<^verbatim>\<open>nr\<close> unbound, and reading
  it raises UnboundLocalError. After another candidate, \<^verbatim>\<open>nr\<close> still holds that
  candidate's number: the first name resolves to \<^verbatim>\<open>None\<close>, and the last name
  raises KeyError. Both end the document.
\<close>

theorem parse_candidates_no_prefixed_key:
  "parse_candidates
     (example_roster (PList
        [example_candidate
           (PDict [(''xnl:PersonName'', PDict [(''xnl:FirstName'', PStr ''Jan''), (''xnl:LastName'', PStr ''Jansen'')])])
           [(''Gender'', PStr ''male'')],
         example_candidate (example_person [example_initials, example_first_name, example_last_name])
           ((''Gender'', PStr ''male'') # example_address)])) [] = Inl UnboundLocalError \<and>
   parse_candidates
     (example_roster (PList
        [example_candidate (example_person [example_initials, example_first_name, example_last_name])
           ((''Gender'', PStr ''male'') # example_address),
         example_candidate
           (PDict [(''xnl:PersonName'', PDict [(''xnl:FirstName'', PStr ''Jan''), (''xnl:LastName'', PStr ''Jansen'')])])
           [(''Gender'', PStr ''male'')]])) [] = Inl KeyError"
  by code_simp

section \<open>The per-candidate rows of a reporting unit\<close>

text \<open>
  Claim C4. When the body of the station loop returns for a reporting unit, the
  per-candidate rows it adds stand one to one, and in order, for the selection items
  of that unit without a party identifier, each row with the candidate identifier of its
  item, when per-candidate rows are requested; it adds none when they are not. A unit
  all of whose selection items carry a party identifier adds no per-candidate row,
  requested or not.
\<close>

theorem candidate_rows_of_station:
  assumes "station_body pc i (ra, rc, p) station = Inr (ra', rc', p')"
  shows "\<exists>rs new.
      station_results station = Inr rs \<and> rc' = rc @ new \<and>
      (if pc
       then \<exists>cids. map candidate_id_of (filter (\<lambda>r. \<not> has_affiliation r) rs) = map Inr cids \<and>
                   map (\<lambda>r. row_get r ''candidate_identifier'') new = map Inr cids
       else new = []) \<and>
      (list_all has_affiliation rs \<longrightarrow> rc' = rc)"
proof -
  from station_body_parts[OF assms] obtain item rs row where
    sr: "station_results station = Inr rs"
    and fl: "for_loop (selection_step pc item) rs (item, rc, p) = Inr (row, rc', p')" by blast
  from selection_loop_rows[OF fl] obtain new where
    new: "rc' = rc @ new"
      "if pc
       then map row_party new = cand_parties p rs \<and> None \<notin> set (cand_parties p rs) \<and>
            map (\<lambda>r. row_get r ''candidate_identifier'') new = cand_ids rs \<and>
            (\<forall>e\<in>set (cand_ids rs). \<not> isl e)
       else new = []" by blast
  have a: "if pc
       then \<exists>cids. map candidate_id_of (filter (\<lambda>r. \<not> has_affiliation r) rs) = map Inr cids \<and>
                   map (\<lambda>r. row_get r ''candidate_identifier'') new = map Inr cids
       else new = []"
  proof (cases pc)
    case True
    with new(2) have m: "map (\<lambda>r. row_get r ''candidate_identifier'') new = cand_ids rs"
      and ok: "\<forall>e\<in>set (cand_ids rs). \<not> isl e" by simp_all
    from all_Inr[OF ok] obtain cids where c: "cand_ids rs = map Inr cids" ..
    have "map candidate_id_of (filter (\<lambda>r. \<not> has_affiliation r) rs) = map Inr cids"
      using c by (simp add: cand_ids_def)
    moreover have "map (\<lambda>r. row_get r ''candidate_identifier'') new = map Inr cids"
      using m c by simp
    ultimately show ?thesis using True by auto
  next
    case False
    with new(2) show ?thesis by simp
  qed
  have b: "list_all has_affiliation rs \<longrightarrow> rc' = rc"
  proof
    assume "list_all has_affiliation rs"
    then have "filter (\<lambda>r. \<not> has_affiliation r) rs = []"
      by (simp add: list_all_iff filter_empty_conv)
    then have "cand_ids rs = []" by (simp add: cand_ids_def)
    with new(2) have "new = []" by (cases pc) simp_all
    with new(1) show "rc' = rc" by simp
  qed
  from sr new(1) a b show ?thesis by blast
qed

text \<open>
  Claim C4, witness: a unit with two party-level totals, and a unit with a party-level
  total and one candidate of that party, both with per-candidate rows requested.
\<close>

theorem candidate_rows_of_station_witness:
  "(\<exists>ra' rc' p'.
      station_body True example_identity ([], [], None) station_parties = Inr (ra', rc', p') \<and>
      station_results station_parties = Inr [pt1, pt2] \<and>
      list_all has_affiliation [pt1, pt2] \<and> rc' = []) \<and>
   (\<exists>ra' rc' p'.
      station_body True example_identity ([], [], None) station_mixed = Inr (ra', rc', p') \<and>
      station_results station_mixed = Inr [pt1, ct7] \<and>
      filter (\<lambda>r. \<not> has_affiliation r) [pt1, ct7] = [ct7] \<and>
      map (\<lambda>r. row_get r ''candidate_identifier'') rc' = [Inr (PStr ''7'')])"
proof -
  have "\<not> isl (station_body True example_identity ([], [], None) station_parties)"
    by code_simp
  then obtain st where "station_body True example_identity ([], [], None) station_parties = Inr st"
    by (cases "station_body True example_identity ([], [], None) station_parties") auto
  then obtain ra' rc' p' where
    ok: "station_body True example_identity ([], [], None) station_parties = Inr (ra', rc', p')"
    by (cases st) auto
  have sr: "station_results station_parties = Inr [pt1, pt2]" by code_simp
  have la: "list_all has_affiliation [pt1, pt2]" by code_simp
  from candidate_rows_of_station[OF ok] sr la have "rc' = []" by auto
  with ok sr la have first: "\<exists>ra' rc' p'.
      station_body True example_identity ([], [], None) station_parties = Inr (ra', rc', p') \<and>
      station_results station_parties = Inr [pt1, pt2] \<and>
      list_all has_affiliation [pt1, pt2] \<and> rc' = []" by blast
  have "\<not> isl (station_body True example_identity ([], [], None) station_mixed)"
    by code_simp
  then obtain st2 where "station_body True example_identity ([], [], None) station_mixed = Inr st2"
    by (cases "station_body True example_identity ([], [], None) station_mixed") auto
  then obtain ra2 rc2 p2 where
    ok2: "station_body True example_identity ([], [], None) station_mixed = Inr (ra2, rc2, p2)"
    by (cases st2) auto
  have sr2: "station_results station_mixed = Inr [pt1, ct7]" by code_simp
  have f2: "filter (\<lambda>r. \<not> has_affiliation r) [pt1, ct7] = [ct7]" by code_simp
  have c7: "candidate_id_of ct7 = Inr (PStr ''7'')" by code_simp
  from candidate_rows_of_station[OF ok2] sr2 obtain new cids where
    n: "rc2 = [] @ new"
       "map candidate_id_of (filter (\<lambda>r. \<not> has_affiliation r) [pt1, ct7]) = map Inr cids"
       "map (\<lambda>r. row_get r ''candidate_identifier'') new = map Inr cids" by auto
  from n(2) have "map Inr cids = [Inr (PStr ''7'') :: pyval res]" unfolding f2 using c7 by simp
  with n(1,3) have "map (\<lambda>r. row_get r ''candidate_identifier'') rc2 = [Inr (PStr ''7'')]" by simp
  with ok2 sr2 f2 have second: "\<exists>ra' rc' p'.
      station_body True example_identity ([], [], None) station_mixed = Inr (ra', rc', p') \<and>
      station_results station_mixed = Inr [pt1, ct7] \<and>
      filter (\<lambda>r. \<not> has_affiliation r) [pt1, ct7] = [ct7] \<and>
      map (\<lambda>r. row_get r ''candidate_identifier'') rc' = [Inr (PStr ''7'')]" by auto
  from first second show ?thesis by blast
qed

section \<open>The reason columns of a reporting unit\<close>

text \<open>
  Claim C9, as amended. When the body of the station loop returns for a reporting
  unit, it has appended one aggregate row. The \<^verbatim>\<open>rejected_*\<close> and
  \<^verbatim>\<open>uncounted_*\<close> columns that the two breakdowns put on the station item are
  exactly the prefixed, lowercased reason codes of the unit, and stripping the prefix
  from them gives back the lowercased codes. The columns of that kind on the aggregate
  row are these together with the party columns whose own name begins with one of the
  prefixes; when the unit has no party so named, they are exactly the prefixed,
  lowercased reason codes, and strip back to the lowercased codes.
\<close>

theorem reason_columns_of_station:
  assumes "station_body pc i (ra, rc, p) station = Inr (ra', rc', p')"
  shows "\<exists>item row rs.
      station_item i station = Inr item \<and> station_results station = Inr rs \<and>
      ra' = ra @ [row] \<and>
      set (reason_columns item) =
        (\<lambda>c. ''rejected_'' @ lower c) ` set (station_codes ''RejectedVotes'' station) \<union>
        (\<lambda>c. ''uncounted_'' @ lower c) ` set (station_codes ''UncountedVotes'' station) \<and>
      recover_code ` set (reason_columns item) =
        lower ` (set (station_codes ''RejectedVotes'' station) \<union>
                 set (station_codes ''UncountedVotes'' station)) \<and>
      set (reason_columns row) = set (reason_columns item) \<union> set (party_reason_columns rs) \<and>
      (party_reason_columns rs = [] \<longrightarrow>
         set (reason_columns row) =
           (\<lambda>c. ''rejected_'' @ lower c) ` set (station_codes ''RejectedVotes'' station) \<union>
           (\<lambda>c. ''uncounted_'' @ lower c) ` set (station_codes ''UncountedVotes'' station) \<and>
         recover_code ` set (reason_columns row) =
           lower ` (set (station_codes ''RejectedVotes'' station) \<union>
                    set (station_codes ''UncountedVotes'' station)))"
proof -
  from station_body_parts[OF assms] obtain item rs row where
    it: "station_item i station = Inr item" and sr: "station_results station = Inr rs"
    and fl: "for_loop (selection_step pc item) rs (item, rc, p) = Inr (row, rc', p')"
    and ra: "ra' = ra @ [row]" by blast
  have ks: "set (map fst row) = set (map fst item) \<union> set (party_columns rs)"
    using fl by (rule selection_loop_keys_set)
  have rr: "set (reason_columns row) = set (reason_columns item) \<union> set (party_reason_columns rs)"
    unfolding set_reason_columns ks party_reason_columns_def set_reason_names by auto
  note rcs = station_item_reason_columns[OF it]
  note rt = station_item_roundtrip[OF it]
  have last: "party_reason_columns rs = [] \<longrightarrow>
         set (reason_columns row) =
           (\<lambda>c. ''rejected_'' @ lower c) ` set (station_codes ''RejectedVotes'' station) \<union>
           (\<lambda>c. ''uncounted_'' @ lower c) ` set (station_codes ''UncountedVotes'' station) \<and>
         recover_code ` set (reason_columns row) =
           lower ` (set (station_codes ''RejectedVotes'' station) \<union>
                    set (station_codes ''UncountedVotes'' station))"
  proof
    assume "party_reason_columns rs = []"
    with rr have e: "set (reason_columns row) = set (reason_columns item)" by simp
    show "set (reason_columns row) =
           (\<lambda>c. ''rejected_'' @ lower c) ` set (station_codes ''RejectedVotes'' station) \<union>
           (\<lambda>c. ''uncounted_'' @ lower c) ` set (station_codes ''UncountedVotes'' station) \<and>
         recover_code ` set (reason_columns row) =
           lower ` (set (station_codes ''RejectedVotes'' station) \<union>
                    set (station_codes ''UncountedVotes'' station))"
      unfolding e using rcs rt by (intro conjI) assumption+
  qed
  show ?thesis
    using it sr ra rcs rt rr last
    by (intro exI[of _ item] exI[of _ row] exI[of _ rs] conjI) assumption+
qed

text \<open>
  Claim C9, witness: a unit with two reasons of rejection and two uncounted reasons,
  and two parties.
\<close>

theorem reason_columns_of_station_witness:
  "\<exists>ra' rc' p' item row.
     station_body False example_identity ([], [], None) station_parties = Inr (ra', rc', p') \<and>
     station_item example_identity station_parties = Inr item \<and> ra' = [row] \<and>
     station_results station_parties = Inr [pt1, pt2] \<and>
     party_reason_columns [pt1, pt2] = [] \<and>
     station_codes ''RejectedVotes'' station_parties = [''Ongeldig'', ''blanco''] \<and>
     station_codes ''UncountedVotes'' station_parties = [''Geldige Stempassen'', ''Toegelaten Kiezers''] \<and>
     set (reason_columns row) =
       {''rejected_ongeldig'', ''rejected_blanco'',
        ''uncounted_geldige stempassen'', ''uncounted_toegelaten kiezers''} \<and>
     recover_code ` set (reason_columns row) =
       {''ongeldig'', ''blanco'', ''geldige stempassen'', ''toegelaten kiezers''}"
proof -
  have "\<not> isl (station_body False example_identity ([], [], None) station_parties)"
    by code_simp
  then obtain st where "station_body False example_identity ([], [], None) station_parties = Inr st"
    by (cases "station_body False example_identity ([], [], None) station_parties") auto
  then obtain ra' rc' p' where
    ok: "station_body False example_identity ([], [], None) station_parties = Inr (ra', rc', p')"
    by (cases st) auto
  from reason_columns_of_station[OF ok] obtain item row rs where
    all: "station_item example_identity station_parties = Inr item \<and>
      station_results station_parties = Inr rs \<and>
      ra' = [] @ [row] \<and>
      set (reason_columns item) =
        (\<lambda>c. ''rejected_'' @ lower c) ` set (station_codes ''RejectedVotes'' station_parties) \<union>
        (\<lambda>c. ''uncounted_'' @ lower c) ` set (station_codes ''UncountedVotes'' station_parties) \<and>
      recover_code ` set (reason_columns item) =
        lower ` (set (station_codes ''RejectedVotes'' station_parties) \<union>
                 set (station_codes ''UncountedVotes'' station_parties)) \<and>
      set (reason_columns row) = set (reason_columns item) \<union> set (party_reason_columns rs) \<and>
      (party_reason_columns rs = [] \<longrightarrow>
         set (reason_columns row) =
           (\<lambda>c. ''rejected_'' @ lower c) ` set (station_codes ''RejectedVotes'' station_parties) \<union>
           (\<lambda>c. ''uncounted_'' @ lower c) ` set (station_codes ''UncountedVotes'' station_parties) \<and>
         recover_code ` set (reason_columns row) =
           lower ` (set (station_codes ''RejectedVotes'' station_parties) \<union>
                    set (station_codes ''UncountedVotes'' station_parties)))"
    by (elim exE) (rule that)
  note it = all[THEN conjunct1]
  note sr = all[THEN conjunct2, THEN conjunct1]
  note ra = all[THEN conjunct2, THEN conjunct2, THEN conjunct1]
  note cond = all[THEN conjunct2, THEN conjunct2, THEN conjunct2, THEN conjunct2, THEN conjunct2,
                  THEN conjunct2]
  have c1: "station_codes ''RejectedVotes'' station_parties = [''Ongeldig'', ''blanco'']"
    by code_simp
  have c2: "station_codes ''UncountedVotes'' station_parties = [''Geldige Stempassen'', ''Toegelaten Kiezers'']"
    by code_simp
  have l: "lower ''Ongeldig'' = ''ongeldig''" "lower ''blanco'' = ''blanco''"
    "lower ''Geldige Stempassen'' = ''geldige stempassen''"
    "lower ''Toegelaten Kiezers'' = ''toegelaten kiezers''"
    by code_simp+
  have sr': "station_results station_parties = Inr [pt1, pt2]" by code_simp
  have pr: "party_reason_columns [pt1, pt2] = []" by code_simp
  from sr sr' have rs: "rs = [pt1, pt2]" by simp
  have pr': "party_reason_columns rs = []" unfolding rs by (rule pr)
  note rowc = cond[THEN mp, OF pr', THEN conjunct1]
  note rowt = cond[THEN mp, OF pr', THEN conjunct2]
  have i1: "(\<lambda>c. ''rejected_'' @ lower c) ` set [''Ongeldig'', ''blanco''] =
      {''rejected_ongeldig'', ''rejected_blanco''}"
    using l(1,2) by simp
  have i2: "(\<lambda>c. ''uncounted_'' @ lower c) ` set [''Geldige Stempassen'', ''Toegelaten Kiezers''] =
      {''uncounted_geldige stempassen'', ''uncounted_toegelaten kiezers''}"
    using l(3,4) by simp
  have i3: "lower ` (set [''Ongeldig'', ''blanco''] \<union> set [''Geldige Stempassen'', ''Toegelaten Kiezers'']) =
      {''ongeldig'', ''blanco'', ''geldige stempassen'', ''toegelaten kiezers''}"
    using l by auto
  have s1: "set (reason_columns row) =
       {''rejected_ongeldig'', ''rejected_blanco'',
        ''uncounted_geldige stempassen'', ''uncounted_toegelaten kiezers''}"
    unfolding rowc c1 c2 i1 i2 by auto
  have s2: "recover_code ` set (reason_columns row) =
       {''ongeldig'', ''blanco'', ''geldige stempassen'', ''toegelaten kiezers''}"
    unfolding rowt c1 c2 i3 by (rule refl)
  have ra1: "ra' = [row]" using ra by simp
  show ?thesis
    using ok it ra1 sr' pr c1 c2 s1 s2
    by (intro exI[of _ ra'] exI[of _ rc'] exI[of _ p'] exI[of _ item] exI[of _ row] conjI) assumption+
qed

text \<open>
  Claim C9, counterexample to the claim as stated: a party registered under the name
  \<^verbatim>\<open>rejected_fraude\<close> puts a \<^verbatim>\<open>rejected_*\<close> column on the aggregate row that is
  no reason code of the unit.
\<close>

theorem reason_columns_claim_counterexample:
  "(case snd (parse_election_data (example_document station_fraude) False) of
      Inl e \<Rightarrow> []
    | Inr Empty_list \<Rightarrow> []
    | Inr (Result ra rc cn ma) \<Rightarrow> map reason_columns ra) =
     [[''rejected_ongeldig'', ''rejected_blanco'',
       ''uncounted_geldige stempassen'', ''uncounted_toegelaten kiezers'', ''rejected_fraude'']] \<and>
   map (\<lambda>c. ''rejected_'' @ lower c) (station_codes ''RejectedVotes'' station_fraude) =
     [''rejected_ongeldig'', ''rejected_blanco''] \<and>
   map (\<lambda>c. ''uncounted_'' @ lower c) (station_codes ''UncountedVotes'' station_fraude) =
     [''uncounted_geldige stempassen'', ''uncounted_toegelaten kiezers''] \<and>
   set [''rejected_ongeldig'', ''rejected_blanco'',
        ''uncounted_geldige stempassen'', ''uncounted_toegelaten kiezers'', ''rejected_fraude''] \<noteq>
   set [''rejected_ongeldig'', ''rejected_blanco''] \<union>
   set [''uncounted_geldige stempassen'', ''uncounted_toegelaten kiezers'']"
  by code_simp

text \<open>
  A breakdown with a single reason. \<^verbatim>\<open>xmltodict\<close> hands it over as one dictionary;
  the loop of line 162 iterates its keys and line 163 raises TypeError, so the unit
  gives no row. The stations are made a list on lines 135 and 136; the breakdowns are
  not.
\<close>

lemma single_reason_breakdown:
  "station_codes ''RejectedVotes'' scenario_a_station = [''Ongeldig''] \<and>
   parse_election_data (example_document scenario_a_station) False = ([], Inl TypeError)"
  by code_simp

section \<open>The party variables of a per-candidate row\<close>

text \<open>
  Claim C10. In a document that \<^verbatim>\<open>parse_election_data\<close> parses with per-candidate
  rows requested, take any selection item without a party identifier, with all the
  selection items before it in the document, whatever their reporting unit. Some item
  before it carries a party identifier, and the row emitted for the item, which holds
  its candidate identifier, has the \<^verbatim>\<open>party_name\<close> and \<^verbatim>\<open>party_id\<close> that the
  last such item bound. And when the reporting units before a unit were processed and
  held no item with a party identifier, and the first selection item of the unit is a
  dictionary without one, the call raises UnboundLocalError.
\<close>

theorem candidate_row_party_variables:
  "(candidate_rows_of (parse_election_data data True) = Some rc \<and>
    document_selections data = Inr (pre @ c # post) \<and> \<not> has_affiliation c \<longrightarrow>
      filter has_affiliation pre \<noteq> [] \<and>
      (\<exists>n pid cid.
         party_of (last (filter has_affiliation pre)) = Some (n, pid) \<and>
         candidate_id_of c = Inr cid \<and>
         length (filter (\<lambda>r. \<not> has_affiliation r) pre) < length rc \<and>
         row_get (rc ! length (filter (\<lambda>r. \<not> has_affiliation r) pre)) ''party_name'' = Inr n \<and>
         row_get (rc ! length (filter (\<lambda>r. \<not> has_affiliation r) pre)) ''party_id'' = Inr pid \<and>
         row_get (rc ! length (filter (\<lambda>r. \<not> has_affiliation r) pre)) ''candidate_identifier'' =
           Inr cid)) \<and>
   (parse_header data = Inr (i, contest) \<and>
    stations_of i contest = Inr (first_rows, before @ s # after) \<and>
    stations_loop True i before (first_rows, [], None) = (printed, Inr state) \<and>
    all_results before = Inr earlier \<and> filter has_affiliation earlier = [] \<and>
    station_item i s = Inr item \<and> station_results s = Inr (d # rs) \<and>
    is_dict d \<and> \<not> has_affiliation d \<longrightarrow>
      snd (parse_election_data data True) = Inl UnboundLocalError)"
proof (intro conjI impI)
  assume a: "candidate_rows_of (parse_election_data data True) = Some rc \<and>
    document_selections data = Inr (pre @ c # post) \<and> \<not> has_affiliation c"
  then have a1: "candidate_rows_of (parse_election_data data True) = Some rc"
    and a2: "document_selections data = Inr (pre @ c # post)"
    and a3: "\<not> has_affiliation c" by blast+
  from candidate_row_bound[OF a1 a2 a3]
  show "filter has_affiliation pre \<noteq> []"
    and "\<exists>n pid cid.
         party_of (last (filter has_affiliation pre)) = Some (n, pid) \<and>
         candidate_id_of c = Inr cid \<and>
         length (filter (\<lambda>r. \<not> has_affiliation r) pre) < length rc \<and>
         row_get (rc ! length (filter (\<lambda>r. \<not> has_affiliation r) pre)) ''party_name'' = Inr n \<and>
         row_get (rc ! length (filter (\<lambda>r. \<not> has_affiliation r) pre)) ''party_id'' = Inr pid \<and>
         row_get (rc ! length (filter (\<lambda>r. \<not> has_affiliation r) pre)) ''candidate_identifier'' =
           Inr cid"
    by blast+
next
  assume b: "parse_header data = Inr (i, contest) \<and>
    stations_of i contest = Inr (first_rows, before @ s # after) \<and>
    stations_loop True i before (first_rows, [], None) = (printed, Inr state) \<and>
    all_results before = Inr earlier \<and> filter has_affiliation earlier = [] \<and>
    station_item i s = Inr item \<and> station_results s = Inr (d # rs) \<and>
    is_dict d \<and> \<not> has_affiliation d"
  then have b1: "parse_header data = Inr (i, contest)"
    and b2: "stations_of i contest = Inr (first_rows, before @ s # after)"
    and b3: "stations_loop True i before (first_rows, [], None) = (printed, Inr state)"
    and b4: "all_results before = Inr earlier" and b5: "filter has_affiliation earlier = []"
    and b6: "station_item i s = Inr item" and b7: "station_results s = Inr (d # rs)"
    and b8: "is_dict d" and b9: "\<not> has_affiliation d" by blast+
  show "snd (parse_election_data data True) = Inl UnboundLocalError"
    using b1 b2 b3 b4 b5 b6 b7 b8 b9 by (rule parse_election_data_unbound)
qed

text \<open>
  Claim C10, witness: a document whose second reporting unit has candidate-level
  items only, so that their rows take the party of the last total of the first unit;
  and the same two units in the other order.
\<close>

theorem candidate_row_party_variables_witness:
  "(\<exists>rc. candidate_rows_of
           (parse_election_data (example_document (PList [station_parties, station_candidates])) True) =
           Some rc \<and>
         document_selections (example_document (PList [station_parties, station_candidates])) =
           Inr ([pt1, pt2] @ ct7 # [ct8]) \<and>
         last (filter has_affiliation [pt1, pt2]) = pt2 \<and>
         party_of pt2 = Some (PStr ''2'', PStr ''2'') \<and>
         row_get (rc ! 0) ''party_name'' = Inr (PStr ''2'') \<and>
         row_get (rc ! 0) ''party_id'' = Inr (PStr ''2'') \<and>
         row_get (rc ! 0) ''candidate_identifier'' = Inr (PStr ''7'')) \<and>
   snd (parse_election_data (example_document (PList [station_candidates, station_parties])) True) =
     Inl UnboundLocalError"
proof -
  let ?D = "example_document (PList [station_parties, station_candidates])"
  have "candidate_rows_of (parse_election_data ?D True) \<noteq> None" by code_simp
  then obtain rc where rc: "candidate_rows_of (parse_election_data ?D True) = Some rc" by blast
  have sel: "document_selections ?D = Inr ([pt1, pt2] @ ct7 # [ct8])" by code_simp
  have c: "\<not> has_affiliation ct7" by code_simp
  have la: "last (filter has_affiliation [pt1, pt2]) = pt2" by code_simp
  have po: "party_of pt2 = Some (PStr ''2'', PStr ''2'')" by code_simp
  have k: "length (filter (\<lambda>r. \<not> has_affiliation r) [pt1, pt2]) = 0" by code_simp
  have ci: "candidate_id_of ct7 = Inr (PStr ''7'')" by code_simp
  have prem1: "candidate_rows_of (parse_election_data ?D True) = Some rc \<and>
    document_selections ?D = Inr ([pt1, pt2] @ ct7 # [ct8]) \<and> \<not> has_affiliation ct7"
    using rc sel c by (intro conjI) assumption+
  from candidate_row_party_variables[where data = ?D and rc = rc and pre = "[pt1, pt2]"
      and c = ct7 and post = "[ct8]", THEN conjunct1, THEN mp, OF prem1]
  obtain n pid cid where
    r: "party_of (last (filter has_affiliation [pt1, pt2])) = Some (n, pid)"
       "candidate_id_of ct7 = Inr cid"
       "row_get (rc ! length (filter (\<lambda>r. \<not> has_affiliation r) [pt1, pt2])) ''party_name'' = Inr n"
       "row_get (rc ! length (filter (\<lambda>r. \<not> has_affiliation r) [pt1, pt2])) ''party_id'' = Inr pid"
       "row_get (rc ! length (filter (\<lambda>r. \<not> has_affiliation r) [pt1, pt2])) ''candidate_identifier'' = Inr cid"
    by blast
  from r(1)[unfolded la po] have "n = PStr ''2''" "pid = PStr ''2''" by blast+
  moreover from r(2) ci have "cid = PStr ''7''" by simp
  ultimately have rows: "row_get (rc ! 0) ''party_name'' = Inr (PStr ''2'')"
    "row_get (rc ! 0) ''party_id'' = Inr (PStr ''2'')"
    "row_get (rc ! 0) ''candidate_identifier'' = Inr (PStr ''7'')"
    using r(3,4,5) unfolding k by simp_all
  let ?E = "example_document (PList [station_candidates, station_parties])"
  let ?contest = "PDict [(''ContestIdentifier'', PDict [(''@Id'', PStr ''geen'')]),
                         (''ReportingUnitVotes'', PList [station_candidates, station_parties])]"
  have h: "parse_header ?E = Inr (example_identity, ?contest)" by code_simp
  have st: "stations_of example_identity ?contest = Inr ([], [] @ station_candidates # [station_parties])"
    by code_simp
  have bl: "stations_loop True example_identity [] ([], [], None) = ([], Inr ([], [], None))" by simp
  have s0: "all_results [] = Inr []" "filter has_affiliation [] = []" by simp_all
  have "\<not> isl (station_item example_identity station_candidates)" by code_simp
  then obtain item where it: "station_item example_identity station_candidates = Inr item"
    by (cases "station_item example_identity station_candidates") auto
  have sr: "station_results station_candidates = Inr (ct7 # [ct8])" by code_simp
  have d: "is_dict ct7" by code_simp
  have prem: "parse_header ?E = Inr (example_identity, ?contest) \<and>
    stations_of example_identity ?contest = Inr ([], [] @ station_candidates # [station_parties]) \<and>
    stations_loop True example_identity [] ([], [], None) = ([], Inr ([], [], None)) \<and>
    all_results [] = Inr [] \<and> filter has_affiliation [] = [] \<and>
    station_item example_identity station_candidates = Inr item \<and>
    station_results station_candidates = Inr (ct7 # [ct8]) \<and>
    is_dict ct7 \<and> \<not> has_affiliation ct7"
    using h st bl s0 it sr d c by (intro conjI) assumption+
  have unbound: "snd (parse_election_data ?E True) = Inl UnboundLocalError"
    using candidate_row_party_variables[where data = ?E and i = example_identity
        and contest = ?contest and first_rows = "[]" and before = "[]" and s = station_candidates
        and after = "[station_parties]" and printed = "[]" and state = "([], [], None)"
        and earlier = "[]" and item = item and d = ct7 and rs = "[ct8]",
        THEN conjunct2, THEN mp, OF prem] .
  from rc sel la po rows have "\<exists>rc. candidate_rows_of (parse_election_data ?D True) = Some rc \<and>
         document_selections ?D = Inr ([pt1, pt2] @ ct7 # [ct8]) \<and>
         last (filter has_affiliation [pt1, pt2]) = pt2 \<and>
         party_of pt2 = Some (PStr ''2'', PStr ''2'') \<and>
         row_get (rc ! 0) ''party_name'' = Inr (PStr ''2'') \<and>
         row_get (rc ! 0) ''party_id'' = Inr (PStr ''2'') \<and>
         row_get (rc ! 0) ''candidate_identifier'' = Inr (PStr ''7'')"
    by (intro exI[of _ rc] conjI) assumption+
  with unbound show ?thesis by (intro conjI) assumption+
qed

end
